theory Spec2Isabelle
  imports Complex_Main
begin

section \<open>Data model (types.ts)\<close>

text \<open>
  A JavaScript number is carried around by this code and never computed with, so it is
  a \<^typ>\<open>real\<close>. An optional property (\<^verbatim>\<open>embedding?: number[]\<close>) is an
  \<^typ>\<open>'a option\<close>, with \<open>None\<close> for \<^verbatim>\<open>undefined\<close> (and for \<^verbatim>\<open>null\<close>,
  which the code never tells apart from it: it only uses \<^verbatim>\<open>!x\<close>, \<^verbatim>\<open>x && ...\<close>,
  \<^verbatim>\<open>?.\<close> and \<^verbatim>\<open>??\<close>).
\<close>

type_synonym Embedding = "real list"

datatype LiteralValue = LString string | LNumber real | LBoolean bool

type_synonym Metadata = "(string \<times> LiteralValue) list"

text \<open>
  \<^verbatim>\<open>interface BaseChromaDoc { id?: string; embedding?: number[]; metadata?: Metadata;
  contents?: string }\<close>. \<^verbatim>\<open>ChromaDoc\<close> is the same object with \<^verbatim>\<open>id\<close> present;
  a \<^verbatim>\<open>QueryDoc\<close> has \<^verbatim>\<open>embedding\<close> or \<^verbatim>\<open>contents\<close> present.
\<close>

record BaseChromaDoc =
  doc_id :: "string option"
  embedding :: "Embedding option"
  metadata :: "Metadata option"
  contents :: "string option"

text \<open>An exception: every \<^verbatim>\<open>throw new Error(msg)\<close> of the source, with its message.\<close>

datatype error = Error string

section \<open>JavaScript library functions used by the source\<close>

text \<open>\<^verbatim>\<open>xs[i]\<close>: \<^verbatim>\<open>undefined\<close> out of range.\<close>

definition js_index :: "'a list \<Rightarrow> nat \<Rightarrow> 'a option" where
  "js_index xs i = (if i < length xs then Some (xs ! i) else None)"

text \<open>\<^verbatim>\<open>Array.prototype.join\<close> on an array of strings.\<close>

fun join :: "string \<Rightarrow> string list \<Rightarrow> string" where
  "join sep [] = []"
| "join sep [x] = x"
| "join sep (x # y # ys) = x @ sep @ join sep (y # ys)"

text \<open>How \<^verbatim>\<open>join\<close> and a template literal print an id: \<^verbatim>\<open>undefined\<close> prints as
  the empty string.\<close>

fun id_text :: "string option \<Rightarrow> string" where
  "id_text None = []"
| "id_text (Some s) = s"

text \<open>
  A \<^verbatim>\<open>Set\<close> keeps its elements in insertion order (which the spread \<^verbatim>\<open>[...s]\<close>
  reads): a list without repetitions. \<^verbatim>\<open>new Set()\<close> is \<open>[]\<close>, \<^verbatim>\<open>s.size\<close> is
  \<^const>\<open>length\<close>.
\<close>

definition set_has :: "'a list \<Rightarrow> 'a \<Rightarrow> bool" where
  "set_has s x = (x \<in> set s)"

definition set_add :: "'a list \<Rightarrow> 'a \<Rightarrow> 'a list" where
  "set_add s x = (if x \<in> set s then s else s @ [x])"

section \<open>Documents.ts: the record codec\<close>

subsection \<open>docsToParallelArrays\<close>

text \<open>The object \<^verbatim>\<open>result\<close>: four arrays, all present.\<close>

record EncodedArrays =
  enc_ids :: "string option list"
  enc_embeddings :: "Embedding option list"
  enc_documents :: "string option list"
  enc_metadatas :: "Metadata option list"

text \<open>The variables of the loop.\<close>

record encode_state =
  result :: EncodedArrays
  idSet :: "string option list"
  duplicateIds :: "string option list"

definition push_doc :: "EncodedArrays \<Rightarrow> BaseChromaDoc \<Rightarrow> EncodedArrays" where
  "push_doc r doc =
     \<lparr>enc_ids = enc_ids r @ [doc_id doc],
      enc_embeddings = enc_embeddings r @ [embedding doc],
      enc_documents = enc_documents r @ [contents doc],
      enc_metadatas = enc_metadatas r @ [metadata doc]\<rparr>"

text \<open>
  The body of \<^verbatim>\<open>for (const doc of documents)\<close>. The source never adds to
  \<^verbatim>\<open>idSet\<close>: the loop only reads it.
\<close>

fun encode_loop :: "BaseChromaDoc list \<Rightarrow> encode_state \<Rightarrow> encode_state" where
  "encode_loop [] st = st"
| "encode_loop (doc # docs) st =
     (if set_has (idSet st) (doc_id doc)
      then encode_loop docs (st\<lparr>duplicateIds := set_add (duplicateIds st) (doc_id doc)\<rparr>)
      else if length (duplicateIds st) > 0
      then encode_loop docs st
      else encode_loop docs (st\<lparr>result := push_doc (result st) doc\<rparr>))"

definition docsToParallelArrays :: "BaseChromaDoc list \<Rightarrow> error + EncodedArrays" where
  "docsToParallelArrays documents =
     (let st = encode_loop documents
                 \<lparr>result = \<lparr>enc_ids = [], enc_embeddings = [], enc_documents = [],
                             enc_metadatas = []\<rparr>,
                  idSet = [], duplicateIds = []\<rparr>
      in if length (duplicateIds st) > 0
         then Inl (Error (''Duplicate ids found: '' @ join '', '' (map id_text (duplicateIds st))))
         else Inr (result st))"

subsection \<open>parallelArraysToDocs\<close>

text \<open>
  The parameter object: \<^verbatim>\<open>ids\<close> is required, the other three arrays are optional.
  The elements have the types \<^const>\<open>docsToParallelArrays\<close> produces; a \<^verbatim>\<open>string[]\<close>
  is a list of \<open>Some\<close>.
\<close>

record ParallelArrays =
  ids :: "string option list"
  embeddings :: "Embedding option list option"
  documents :: "string option list option"
  metadatas :: "Metadata option list option"

text \<open>\<^verbatim>\<open>arr && ids.length !== arr.length\<close>: an array is truthy, \<^verbatim>\<open>undefined\<close> is not.\<close>

fun length_differs :: "'b list \<Rightarrow> 'a list option \<Rightarrow> bool" where
  "length_differs xs None = False"
| "length_differs xs (Some arr) = (length xs \<noteq> length arr)"

text \<open>\<^verbatim>\<open>arr?.[index]\<close>, on an array whose elements may themselves be absent.\<close>

fun opt_index :: "'a option list option \<Rightarrow> nat \<Rightarrow> 'a option" where
  "opt_index None index = None"
| "opt_index (Some arr) index = (case js_index arr index of None \<Rightarrow> None | Some v \<Rightarrow> v)"

definition parallelArraysToDocs :: "ParallelArrays \<Rightarrow> error + BaseChromaDoc list" where
  "parallelArraysToDocs pa =
     (if length_differs (ids pa) (embeddings pa) \<or>
         length_differs (ids pa) (metadatas pa) \<or>
         length_differs (ids pa) (documents pa)
      then Inl (Error ''ids, embeddings, metadatas, and documents must all be the same length'')
      else Inr (map (\<lambda>(index, i).
                  \<lparr>doc_id = i,
                   embedding = opt_index (embeddings pa) index,
                   metadata = opt_index (metadatas pa) index,
                   contents = opt_index (documents pa) index\<rparr>)
                (enumerate 0 (ids pa))))"

text \<open>
  The object \<^const>\<open>docsToParallelArrays\<close> returns, passed to
  \<^const>\<open>parallelArraysToDocs\<close>: the same four arrays, each of them present.
\<close>

definition asParallelArrays :: "EncodedArrays \<Rightarrow> ParallelArrays" where
  "asParallelArrays r =
     \<lparr>ids = enc_ids r, embeddings = Some (enc_embeddings r),
      documents = Some (enc_documents r), metadatas = Some (enc_metadatas r)\<rparr>"

section \<open>Documents.ts: computeEmbeddings\<close>

subsection \<open>Document objects and references\<close>

text \<open>
  \<^verbatim>\<open>computeEmbeddings\<close> assigns to the \<^verbatim>\<open>embedding\<close> property of the objects it is
  given and returns the array it was given, so the caller sees the assignment through its
  own references. Document objects therefore live in a store: the heap is the list of the
  objects allocated so far and a reference is an index into it.
\<close>

type_synonym ref = nat

type_synonym heap = "BaseChromaDoc list"

text \<open>
  What an element of the \<^verbatim>\<open>documents\<close> array is at run time: a reference to a
  document object or, behind the type \<^verbatim>\<open>T extends BaseChromaDoc\<close>, a number
  (\<^verbatim>\<open>queryDocuments\<close> passes numbers when \<^verbatim>\<open>query\<close> is a raw vector).
\<close>

datatype js_value = Obj ref | Num real

text \<open>
  Reading the properties of a value: every property of a number is \<^verbatim>\<open>undefined\<close>.
  A reference of the program denotes an object that has been allocated, \<open>r < length h\<close>;
  the theorems that depend on it say so.
\<close>

fun get_doc :: "heap \<Rightarrow> js_value \<Rightarrow> BaseChromaDoc" where
  "get_doc h (Obj r) = h ! r"
| "get_doc h (Num x) = \<lparr>doc_id = None, embedding = None, metadata = None, contents = None\<rparr>"

text \<open>
  \<^verbatim>\<open>doc.embedding = e\<close>. On a number the assignment changes no object; the source
  never gets there, since a number has neither contents nor embedding and the first check
  of \<^verbatim>\<open>computeEmbeddings\<close> throws.
\<close>

fun set_embedding :: "js_value \<Rightarrow> Embedding option \<Rightarrow> heap \<Rightarrow> heap" where
  "set_embedding (Obj r) e h = h[r := (h ! r)\<lparr>embedding := e\<rparr>]"
| "set_embedding (Num x) e h = h"

text \<open>\<^verbatim>\<open>!doc.contents\<close>: \<^verbatim>\<open>undefined\<close> and the empty string are falsy.\<close>

fun falsy_string :: "string option \<Rightarrow> bool" where
  "falsy_string None = True"
| "falsy_string (Some s) = (s = [])"

text \<open>\<^verbatim>\<open>!doc.embedding\<close>: \<^verbatim>\<open>undefined\<close> is falsy, every array is truthy.\<close>

fun falsy_array :: "'a list option \<Rightarrow> bool" where
  "falsy_array None = True"
| "falsy_array (Some xs) = False"

subsection \<open>The embedding capability\<close>

text \<open>
  \<^verbatim>\<open>IEmbeddingFunction\<close> is not among the sources; \<^verbatim>\<open>generate\<close> is a parameter: a
  function from the array it receives to the rejection or the array of vectors it
  resolves to. The elements of its argument are what \<^verbatim>\<open>doc.contents\<close> reads.
  Every call is recorded, with its argument, in \<open>generate_calls\<close>.
\<close>

type_synonym IEmbeddingFunction = "string option list \<Rightarrow> error + Embedding list"

record world =
  heap :: heap
  generate_calls :: "string option list list"

subsection \<open>computeEmbeddings\<close>

text \<open>\<^verbatim>\<open>docsMissingEmbeddings.map((doc, index) => { doc.embedding = embeddings[index]; })\<close>\<close>

fun assign_embeddings :: "(nat \<times> js_value) list \<Rightarrow> Embedding list \<Rightarrow> heap \<Rightarrow> heap" where
  "assign_embeddings [] es h = h"
| "assign_embeddings ((index, doc) # rest) es h =
     assign_embeddings rest es (set_embedding doc (js_index es index) h)"

definition computeEmbeddings ::
  "js_value list \<Rightarrow> IEmbeddingFunction \<Rightarrow> world \<Rightarrow> (error + js_value list) \<times> world" where
  "computeEmbeddings docs embeddingFunction w =
     (let docsWithoutContentsOrEmbeddings =
            filter (\<lambda>doc. falsy_string (contents (get_doc (heap w) doc)) \<and>
                          falsy_array (embedding (get_doc (heap w) doc))) docs
      in if length docsWithoutContentsOrEmbeddings > 0
         then (Inl (Error (''The following documents have neither contents nor embeddings: '' @
                 join '', '' (map (\<lambda>doc. id_text (doc_id (get_doc (heap w) doc)))
                               docsWithoutContentsOrEmbeddings))), w)
         else
           let docsMissingEmbeddings =
                 filter (\<lambda>doc. falsy_array (embedding (get_doc (heap w) doc))) docs
           in if length docsMissingEmbeddings = 0
              then (Inr docs, w)
              else
                let texts = map (\<lambda>doc. contents (get_doc (heap w) doc)) docsMissingEmbeddings;
                    w1 = w\<lparr>generate_calls := generate_calls w @ [texts]\<rparr>
                in case embeddingFunction texts of
                     Inl e \<Rightarrow> (Inl e, w1)
                   | Inr es \<Rightarrow>
                       (Inr docs,
                        w1\<lparr>heap := assign_embeddings (enumerate 0 docsMissingEmbeddings) es
                                      (heap w1)\<rparr>))"

section \<open>Documents.ts: docQueryToQueryDoc\<close>

text \<open>
  \<^verbatim>\<open>type DocQuery = string | Embedding | QueryDoc\<close>; a \<^verbatim>\<open>QueryDoc\<close> is an object of
  the caller's, given by reference. \<^verbatim>\<open>SingleQueryParams\<close> has \<^verbatim>\<open>query: DocQuery\<close>,
  \<^verbatim>\<open>MultiQueryParams\<close> has \<^verbatim>\<open>query: DocQuery[]\<close>.
\<close>

datatype DocQuery = QueryText string | QueryVector Embedding | QueryObject ref

datatype query = Single DocQuery | Multi "DocQuery list"

text \<open>
  \<^verbatim>\<open>Array.isArray(query)\<close>. At run time a raw vector is an array of numbers and a
  batch is an array of queries: both are arrays.
\<close>

fun isArray :: "query \<Rightarrow> bool" where
  "isArray (Single (QueryVector v)) = True"
| "isArray (Single q) = False"
| "isArray (Multi qs) = True"

text \<open>An element of the array \<^verbatim>\<open>toArray(query)\<close>: a query, or a number of a raw vector.\<close>

datatype query_element = Query DocQuery | Number real

text \<open>
  Modelled from the spec: \<^verbatim>\<open>toArray\<close> of \<^verbatim>\<open>utils.ts\<close>, which is not among the
  sources. The spec resolves single against batch "by inspecting whether the input was
  batch-shaped, not a caller-supplied flag"; the last statement of
  \<^verbatim>\<open>queryDocuments\<close> makes that inspection with \<^verbatim>\<open>Array.isArray\<close>, and
  \<^verbatim>\<open>toArray\<close> is modelled with the same one: an array is returned as it is, anything
  else becomes a one-element array.
\<close>

fun toArray :: "query \<Rightarrow> query_element list" where
  "toArray (Single (QueryVector v)) = map Number v"
| "toArray (Single q) = [Query q]"
| "toArray (Multi qs) = map Query qs"

text \<open>An object literal \<^verbatim>\<open>{ ... }\<close> allocates a new object.\<close>

definition alloc :: "BaseChromaDoc \<Rightarrow> heap \<Rightarrow> js_value \<times> heap" where
  "alloc d h = (Obj (length h), h @ [d])"

fun docQueryToQueryDoc :: "query_element \<Rightarrow> heap \<Rightarrow> js_value \<times> heap" where
  "docQueryToQueryDoc (Query (QueryVector v)) h =
     alloc \<lparr>doc_id = None, embedding = Some v, metadata = None, contents = None\<rparr> h"
| "docQueryToQueryDoc (Query (QueryText s)) h =
     alloc \<lparr>doc_id = None, embedding = None, metadata = None, contents = Some s\<rparr> h"
| "docQueryToQueryDoc (Query (QueryObject r)) h = (Obj r, h)"
| "docQueryToQueryDoc (Number x) h = (Num x, h)"

section \<open>ChromaClient.ts: queryDocuments\<close>

datatype IncludeEnum = Documents | Embeddings | Metadatas | Distances

text \<open>\<^verbatim>\<open>Where\<close> and \<^verbatim>\<open>WhereDocument\<close> are JSON objects, passed on as they are.\<close>

datatype json =
  JNull | JBool bool | JNumber real | JString string | JArray "json list"
| JObject "(string \<times> json) list"

record QueryParams =
  nResults :: "nat option"
  where_q :: "json option"
  query :: query
  whereDocument :: "json option"
  include_q :: "IncludeEnum list option"

text \<open>
  \<^verbatim>\<open>QueryResponse\<close>. The source reads \<^verbatim>\<open>embeddings\<close>, \<^verbatim>\<open>documents\<close>,
  \<^verbatim>\<open>metadatas\<close> and \<^verbatim>\<open>distances\<close> with \<^verbatim>\<open>?.\<close>, so each of them may be absent.
\<close>

record QueryResponse =
  resp_ids :: "string list list"
  resp_embeddings :: "Embedding list list option"
  resp_documents :: "string option list list option"
  resp_metadatas :: "Metadata option list list option"
  resp_distances :: "real list list option"
  resp_included :: "IncludeEnum list"

text \<open>The body of the request \<^verbatim>\<open>getNearestNeighbors\<close> is called with.\<close>

record QueryRequest =
  query_embeddings :: "Embedding option list"
  where_r :: "json option"
  n_results :: nat
  where_document :: "json option"
  include_r :: "IncludeEnum list option"

text \<open>
  The client, as far as \<^verbatim>\<open>queryDocuments\<close> uses it: \<^verbatim>\<open>initPromise\<close>, resolved or
  rejected, and \<^verbatim>\<open>api.getNearestNeighbors(...).then(handleSuccess)\<close>, a parameter (the
  generated bindings and \<^verbatim>\<open>handleSuccess\<close> are not among the sources): from the
  collection id and the request to the rejection or the response.
\<close>

record ChromaClient =
  initPromise :: "error + unit"
  getNearestNeighbors :: "string \<Rightarrow> QueryRequest \<Rightarrow> error + QueryResponse"

record Collection =
  collection_name :: string
  collection_id :: string
  collection_metadata :: "(string \<times> json) list option"
  embeddingFunction :: IEmbeddingFunction

record RankedResult =
  doc :: BaseChromaDoc
  distance :: real

text \<open>\<^verbatim>\<open>queryDoc: queryDocs[index]\<close> is \<^verbatim>\<open>undefined\<close> out of range.\<close>

record SingleQueryResult =
  queryDoc :: "js_value option"
  results :: "RankedResult list"

text \<open>
  \<^verbatim>\<open>QueryResult\<close>: the array \<^verbatim>\<open>result\<close>, or \<^verbatim>\<open>result[0]\<close>, which is
  \<^verbatim>\<open>undefined\<close> when the array is empty.
\<close>

datatype QueryResult = SingleResult "SingleQueryResult option" | MultiResult "SingleQueryResult list"

text \<open>\<^verbatim>\<open>toArray<DocQuery>(query).map(docQueryToQueryDoc)\<close>, left to right.\<close>

fun map_docQueryToQueryDoc :: "query_element list \<Rightarrow> heap \<Rightarrow> js_value list \<times> heap" where
  "map_docQueryToQueryDoc [] h = ([], h)"
| "map_docQueryToQueryDoc (q # qs) h =
     (case docQueryToQueryDoc q h of (v, h1) \<Rightarrow>
        (case map_docQueryToQueryDoc qs h1 of (vs, h2) \<Rightarrow> (v # vs, h2)))"

text \<open>\<^verbatim>\<open>xs.map(f)\<close> with a callback that may throw: the first exception ends the call.\<close>

fun map_throwing :: "('a \<Rightarrow> error + 'b) \<Rightarrow> 'a list \<Rightarrow> error + 'b list" where
  "map_throwing f [] = Inr []"
| "map_throwing f (x # xs) =
     (case f x of
        Inl e \<Rightarrow> Inl e
      | Inr y \<Rightarrow> (case map_throwing f xs of Inl e \<Rightarrow> Inl e | Inr ys \<Rightarrow> Inr (y # ys)))"

text \<open>\<^verbatim>\<open>arr?.[index]\<close> on an array of arrays.\<close>

fun opt_row :: "'a list option \<Rightarrow> nat \<Rightarrow> 'a option" where
  "opt_row None index = None"
| "opt_row (Some arr) index = js_index arr index"

text \<open>\<^verbatim>\<open>response.distances?.[index]?.[i] ?? 0\<close>\<close>

definition distance_at :: "QueryResponse \<Rightarrow> nat \<Rightarrow> nat \<Rightarrow> real" where
  "distance_at response index i =
     (case opt_row (opt_row (resp_distances response) index) i of None \<Rightarrow> 0 | Some d \<Rightarrow> d)"

text \<open>
  The object \<^verbatim>\<open>parallelArraysToDocs\<close> is called with for the query at \<open>index\<close>, whose
  neighbour ids are \<open>nids\<close>. The ids of the response are strings and its vectors are
  arrays, all present. The distances are not part of it.
\<close>

definition response_entry :: "QueryResponse \<Rightarrow> nat \<Rightarrow> string list \<Rightarrow> ParallelArrays" where
  "response_entry response index nids =
     \<lparr>ids = map Some nids,
      embeddings = map_option (map Some) (opt_row (resp_embeddings response) index),
      documents = opt_row (resp_documents response) index,
      metadatas = opt_row (resp_metadatas response) index\<rparr>"

text \<open>The callback of \<^verbatim>\<open>response.ids.map((ids, index) => ...)\<close>.\<close>

definition query_bundle ::
  "js_value list \<Rightarrow> QueryResponse \<Rightarrow> nat \<times> string list \<Rightarrow> error + SingleQueryResult" where
  "query_bundle queryDocs response = (\<lambda>(index, nids).
     (case parallelArraysToDocs (response_entry response index nids) of
        Inl e \<Rightarrow> Inl e
      | Inr ds \<Rightarrow>
          Inr \<lparr>queryDoc = js_index queryDocs index,
               results = map (\<lambda>(i, d). \<lparr>doc = d, distance = distance_at response index i\<rparr>)
                             (enumerate 0 ds)\<rparr>))"

definition queryDocuments ::
  "ChromaClient \<Rightarrow> Collection \<Rightarrow> QueryParams \<Rightarrow> world \<Rightarrow> (error + QueryResult) \<times> world" where
  "queryDocuments client collection params w =
     (case initPromise client of
        Inl e \<Rightarrow> (Inl e, w)
      | Inr u \<Rightarrow>
          (case map_docQueryToQueryDoc (toArray (query params)) (heap w) of (queryDocs, h1) \<Rightarrow>
             (case computeEmbeddings queryDocs (embeddingFunction collection) (w\<lparr>heap := h1\<rparr>) of
                (Inl e, w2) \<Rightarrow> (Inl e, w2)
              | (Inr docsWithEmbeddings, w2) \<Rightarrow>
                  (case getNearestNeighbors client (collection_id collection)
                          \<lparr>query_embeddings =
                             map (\<lambda>d. embedding (get_doc (heap w2) d)) docsWithEmbeddings,
                           where_r = where_q params,
                           n_results = (case nResults params of None \<Rightarrow> 10 | Some n \<Rightarrow> n),
                           where_document = whereDocument params,
                           include_r = include_q params\<rparr> of
                     Inl e \<Rightarrow> (Inl e, w2)
                   | Inr response \<Rightarrow>
                       (case map_throwing (query_bundle queryDocs response)
                               (enumerate 0 (resp_ids response)) of
                          Inl e \<Rightarrow> (Inl e, w2)
                        | Inr result' \<Rightarrow>
                            (Inr (if isArray (query params) then MultiResult result'
                                  else SingleResult (js_index result' 0)), w2))))))"

section \<open>Specification vocabulary and example values\<close>

text \<open>How a query and the value it is normalised to are related, in a heap.\<close>

fun normalised :: "heap \<Rightarrow> DocQuery \<Rightarrow> js_value \<Rightarrow> bool" where
  "normalised h (QueryText s) v =
     (\<exists>r < length h. v = Obj r \<and> (\<exists>e. h ! r =
        \<lparr>doc_id = None, embedding = e, metadata = None, contents = Some s\<rparr>))"
| "normalised h (QueryVector e) v =
     (\<exists>r < length h. v = Obj r \<and> h ! r =
        \<lparr>doc_id = None, embedding = Some e, metadata = None, contents = None\<rparr>)"
| "normalised h (QueryObject r) v = (v = Obj r)"

text \<open>
  Example values: a server answering two queries, the first with two neighbours and the
  second with one, with vectors and metadata that differ from row to row, and with a single
  distance; a collection whose embedding capability
  gives every text the vector 1, 2; the heap and the record of calls after the two text
  queries doc1 and doc2 have been resolved; the documents the two entries of the response
  decode to.
\<close>

definition example_response :: QueryResponse where
  "example_response =
     \<lparr>resp_ids = [[''doc1'', ''doc2''], [''doc2'']],
      resp_embeddings = Some [[[1], [2]], [[3]]],
      resp_documents = Some [[Some ''doc1'', Some ''doc2''], [Some ''doc2'']],
      resp_metadatas = Some [[None, Some [(''k'', LBoolean True)]], [Some [(''k'', LBoolean False)]]],
      resp_distances = Some [[1 / 4]],
      resp_included = [Documents, Embeddings, Metadatas, Distances]\<rparr>"

definition example_client :: ChromaClient where
  "example_client =
     \<lparr>initPromise = Inr (), getNearestNeighbors = (\<lambda>cid request. Inr example_response)\<rparr>"

definition example_collection :: Collection where
  "example_collection =
     \<lparr>collection_name = ''test'', collection_id = ''c1'', collection_metadata = None,
      embeddingFunction = (\<lambda>texts. Inr (map (\<lambda>t. [1, 2]) texts))\<rparr>"

definition example_params :: "query \<Rightarrow> QueryParams" where
  "example_params q =
     \<lparr>nResults = Some 2, where_q = None, query = q, whereDocument = None, include_q = None\<rparr>"

definition example_world :: world where
  "example_world =
     \<lparr>heap = [\<lparr>doc_id = None, embedding = Some [1, 2], metadata = None,
               contents = Some ''doc1''\<rparr>,
              \<lparr>doc_id = None, embedding = Some [1, 2], metadata = None,
               contents = Some ''doc2''\<rparr>],
      generate_calls = [[Some ''doc1'', Some ''doc2'']]\<rparr>"

definition example_neighbours :: "nat \<Rightarrow> BaseChromaDoc list" where
  "example_neighbours index =
     [[\<lparr>doc_id = Some ''doc1'', embedding = Some [1], metadata = None,
        contents = Some ''doc1''\<rparr>,
       \<lparr>doc_id = Some ''doc2'', embedding = Some [2], metadata = Some [(''k'', LBoolean True)],
        contents = Some ''doc2''\<rparr>],
      [\<lparr>doc_id = Some ''doc2'', embedding = Some [3], metadata = Some [(''k'', LBoolean False)],
        contents = Some ''doc2''\<rparr>]]
     ! index"

section \<open>The codec: proofs\<close>

lemma encode_loop_no_duplicates:
  "idSet st = [] \<Longrightarrow> duplicateIds st = [] \<Longrightarrow>
   encode_loop docs st = st\<lparr>result := foldl push_doc (result st) docs\<rparr>"
  by (induction docs arbitrary: st) (simp_all add: set_has_def)

lemma foldl_push_doc:
  "foldl push_doc r docs =
     \<lparr>enc_ids = enc_ids r @ map doc_id docs,
      enc_embeddings = enc_embeddings r @ map embedding docs,
      enc_documents = enc_documents r @ map contents docs,
      enc_metadatas = enc_metadatas r @ map metadata docs\<rparr>"
  by (induction docs arbitrary: r) (simp_all add: push_doc_def)

lemma docsToParallelArrays_total:
  "docsToParallelArrays docs =
     Inr \<lparr>enc_ids = map doc_id docs, enc_embeddings = map embedding docs,
          enc_documents = map contents docs, enc_metadatas = map metadata docs\<rparr>"
  by (simp add: docsToParallelArrays_def encode_loop_no_duplicates foldl_push_doc)

lemma parallelArraysToDocs_encoded:
  "parallelArraysToDocs
     \<lparr>ids = map doc_id docs, embeddings = Some (map embedding docs),
      documents = Some (map contents docs), metadatas = Some (map metadata docs)\<rparr> = Inr docs"
  by (auto simp add: parallelArraysToDocs_def js_index_def nth_enumerate_eq intro!: nth_equalityI)

text \<open>
  Claim C1 says that \<^const>\<open>docsToParallelArrays\<close> fails with the duplicate-id error on
  every sequence with a repeated id. The source tests \<^verbatim>\<open>idSet.has(doc.id)\<close> and never
  calls \<^verbatim>\<open>idSet.add\<close>, so no id is ever found to be repeated: on the sequence with ids
  a, b, a of the spec's scenario 2 the call returns the four arrays, the repeated id
  included, and no error.
\<close>

theorem docsToParallelArrays_returns_duplicate_ids:
  "docsToParallelArrays
     [\<lparr>doc_id = Some ''a'', embedding = None, metadata = None, contents = Some ''x''\<rparr>,
      \<lparr>doc_id = Some ''b'', embedding = None, metadata = None, contents = Some ''y''\<rparr>,
      \<lparr>doc_id = Some ''a'', embedding = None, metadata = None, contents = Some ''z''\<rparr>] =
   Inr \<lparr>enc_ids = [Some ''a'', Some ''b'', Some ''a''],
        enc_embeddings = [None, None, None],
        enc_documents = [Some ''x'', Some ''y'', Some ''z''],
        enc_metadatas = [None, None, None]\<rparr>"
  by (simp add: docsToParallelArrays_def set_has_def push_doc_def)

text \<open>
  Claim C2: for every document sequence whose ids are pairwise distinct, encoding succeeds,
  decoding the encoded arrays gives back the sequence itself (every field of every
  document, in the same order), and the encoded \<^verbatim>\<open>ids\<close> array is as long as the input.
\<close>

theorem decode_encode_roundtrip:
  assumes "distinct (map doc_id docs)"
  shows "\<exists>r. docsToParallelArrays docs = Inr r \<and>
             parallelArraysToDocs (asParallelArrays r) = Inr docs \<and>
             length (enc_ids r) = length docs"
  by (simp add: docsToParallelArrays_total asParallelArrays_def parallelArraysToDocs_encoded)

theorem decode_encode_roundtrip_witness:
  "distinct (map doc_id
     [\<lparr>doc_id = Some ''doc1'', embedding = Some [1, 2], metadata = None, contents = Some ''doc1''\<rparr>,
      \<lparr>doc_id = Some ''doc2'', embedding = None, metadata = Some [(''k'', LBoolean True)],
        contents = Some ''doc2''\<rparr>]) \<and>
   (\<exists>r. docsToParallelArrays
          [\<lparr>doc_id = Some ''doc1'', embedding = Some [1, 2], metadata = None,
            contents = Some ''doc1''\<rparr>,
           \<lparr>doc_id = Some ''doc2'', embedding = None, metadata = Some [(''k'', LBoolean True)],
            contents = Some ''doc2''\<rparr>] = Inr r \<and>
        parallelArraysToDocs (asParallelArrays r) =
          Inr [\<lparr>doc_id = Some ''doc1'', embedding = Some [1, 2], metadata = None,
                contents = Some ''doc1''\<rparr>,
               \<lparr>doc_id = Some ''doc2'', embedding = None, metadata = Some [(''k'', LBoolean True)],
                contents = Some ''doc2''\<rparr>] \<and>
        length (enc_ids r) = length
          [\<lparr>doc_id = Some ''doc1'', embedding = Some [1, 2], metadata = None,
            contents = Some ''doc1''\<rparr>,
           \<lparr>doc_id = Some ''doc2'', embedding = None, metadata = Some [(''k'', LBoolean True)],
            contents = Some ''doc2''\<rparr>])"
  using decode_encode_roundtrip
    [of "[\<lparr>doc_id = Some ''doc1'', embedding = Some [1, 2], metadata = None,
            contents = Some ''doc1''\<rparr>,
          \<lparr>doc_id = Some ''doc2'', embedding = None, metadata = Some [(''k'', LBoolean True)],
            contents = Some ''doc2''\<rparr>]"]
  by simp

text \<open>
  Claim C8: \<^const>\<open>parallelArraysToDocs\<close> fails exactly when one of the arrays
  \<^verbatim>\<open>embeddings\<close>, \<^verbatim>\<open>documents\<close>, \<^verbatim>\<open>metadatas\<close> is present with a length other than
  that of \<^verbatim>\<open>ids\<close>, and then with the length-mismatch error; otherwise it returns one
  document for each index of \<^verbatim>\<open>ids\<close>, whose fields are the elements of the arrays at
  that index, absent for every array that was not provided.
\<close>

theorem parallelArraysToDocs_length_check:
  "((\<exists>e. parallelArraysToDocs pa = Inl e) \<longleftrightarrow>
      (\<exists>arr. embeddings pa = Some arr \<and> length arr \<noteq> length (ids pa)) \<or>
      (\<exists>arr. documents pa = Some arr \<and> length arr \<noteq> length (ids pa)) \<or>
      (\<exists>arr. metadatas pa = Some arr \<and> length arr \<noteq> length (ids pa))) \<and>
   (\<forall>e. parallelArraysToDocs pa = Inl e \<longrightarrow>
      e = Error ''ids, embeddings, metadatas, and documents must all be the same length'') \<and>
   (\<forall>ds. parallelArraysToDocs pa = Inr ds \<longrightarrow>
      length ds = length (ids pa) \<and>
      (\<forall>index < length (ids pa).
         ds ! index =
           \<lparr>doc_id = ids pa ! index,
            embedding = (case embeddings pa of None \<Rightarrow> None | Some arr \<Rightarrow> arr ! index),
            metadata = (case metadatas pa of None \<Rightarrow> None | Some arr \<Rightarrow> arr ! index),
            contents = (case documents pa of None \<Rightarrow> None | Some arr \<Rightarrow> arr ! index)\<rparr>))"
  by (cases "embeddings pa"; cases "documents pa"; cases "metadatas pa")
     (auto simp add: parallelArraysToDocs_def js_index_def nth_enumerate_eq)

theorem parallelArraysToDocs_length_check_witness:
  "parallelArraysToDocs
     \<lparr>ids = [Some ''x'', Some ''y''], embeddings = Some [Some [1, 2, 3]], documents = None,
      metadatas = None\<rparr> =
     Inl (Error ''ids, embeddings, metadatas, and documents must all be the same length'') \<and>
   parallelArraysToDocs
     \<lparr>ids = [Some ''x'', Some ''y''], embeddings = Some [Some [1, 2, 3], None],
      documents = None, metadatas = None\<rparr> =
     Inr [\<lparr>doc_id = Some ''x'', embedding = Some [1, 2, 3], metadata = None, contents = None\<rparr>,
          \<lparr>doc_id = Some ''y'', embedding = None, metadata = None, contents = None\<rparr>]"
proof -
  let ?bad = "\<lparr>ids = [Some ''x'', Some ''y''], embeddings = Some [Some [1, 2, 3]],
               documents = None, metadatas = None\<rparr>"
  let ?good = "\<lparr>ids = [Some ''x'', Some ''y''], embeddings = Some [Some [1, 2, 3], None],
                documents = None, metadatas = None\<rparr>"
  have "\<exists>e. parallelArraysToDocs ?bad = Inl e"
    using parallelArraysToDocs_length_check [of ?bad] by simp
  then have bad: "parallelArraysToDocs ?bad =
      Inl (Error ''ids, embeddings, metadatas, and documents must all be the same length'')"
    using parallelArraysToDocs_length_check [of ?bad] by blast
  have "\<not> (\<exists>e. parallelArraysToDocs ?good = Inl e)"
    using parallelArraysToDocs_length_check [of ?good] by simp
  then obtain ds where ds: "parallelArraysToDocs ?good = Inr ds"
    by (cases "parallelArraysToDocs ?good") auto
  with parallelArraysToDocs_length_check [of ?good]
  have len: "length ds = 2" and el: "\<forall>index < 2. ds ! index =
           \<lparr>doc_id = [Some ''x'', Some ''y''] ! index,
            embedding = [Some [1, 2, 3], None] ! index,
            metadata = None, contents = None\<rparr>"
    by simp_all
  from el have "ds ! 0 = \<lparr>doc_id = Some ''x'', embedding = Some [1, 2, 3], metadata = None,
      contents = None\<rparr>"
    and "ds ! 1 = \<lparr>doc_id = Some ''y'', embedding = None, metadata = None, contents = None\<rparr>"
    by simp_all
  with len have "ds = [\<lparr>doc_id = Some ''x'', embedding = Some [1, 2, 3], metadata = None,
      contents = None\<rparr>,
      \<lparr>doc_id = Some ''y'', embedding = None, metadata = None, contents = None\<rparr>]"
    by (cases ds; cases "tl ds") auto
  with bad ds show ?thesis by simp
qed

section \<open>computeEmbeddings: proofs\<close>

lemma falsy_array_iff: "falsy_array x \<longleftrightarrow> x = None"
  by (cases x) simp_all

lemma falsy_string_iff: "falsy_string x \<longleftrightarrow> x = None \<or> x = Some []"
  by (cases x) simp_all

lemma length_set_embedding: "length (set_embedding d e h) = length h"
  by (cases d) simp_all

lemma length_assign_embeddings: "length (assign_embeddings ps es h) = length h"
  by (induction ps es h rule: assign_embeddings.induct) (simp_all add: length_set_embedding)

lemma set_embedding_other: "d \<noteq> Obj r \<Longrightarrow> set_embedding d e h ! r = h ! r"
  by (cases d) simp_all

text \<open>The assignments leave every object alone that is not among the assigned ones.\<close>

lemma assign_embeddings_frame:
  "Obj r \<notin> snd ` set ps \<Longrightarrow> assign_embeddings ps es h ! r = h ! r"
proof (induction ps es h rule: assign_embeddings.induct)
  case (1 es h)
  then show ?case by simp
next
  case (2 index d rest es h)
  then have "d \<noteq> Obj r" and "Obj r \<notin> snd ` set rest" by auto
  with 2 show ?case by (simp add: set_embedding_other)
qed

text \<open>An object assigned once receives the vector at the index it is paired with.\<close>

lemma assign_embeddings_hit:
  "distinct (map snd ps) \<Longrightarrow> (i, Obj r) \<in> set ps \<Longrightarrow> r < length h \<Longrightarrow>
   assign_embeddings ps es h ! r = (h ! r)\<lparr>embedding := js_index es i\<rparr>"
proof (induction ps es h rule: assign_embeddings.induct)
  case (1 es h)
  then show ?case by simp
next
  case (2 index d rest es h)
  show ?case
  proof (cases "(i, Obj r) = (index, d)")
    case True
    then have eq: "index = i" "d = Obj r" by simp_all
    from 2(2) have "Obj r \<notin> snd ` set rest" by (simp add: eq)
    then have "assign_embeddings rest es (set_embedding d (js_index es index) h) ! r =
        set_embedding d (js_index es index) h ! r"
      by (rule assign_embeddings_frame)
    with 2(4) show ?thesis by (simp add: eq)
  next
    case False
    with 2 have in_rest: "(i, Obj r) \<in> set rest" by auto
    with 2 have "d \<noteq> Obj r" by force
    then have same: "set_embedding d (js_index es index) h ! r = h ! r"
      by (rule set_embedding_other)
    from 2 in_rest have
      "assign_embeddings rest es (set_embedding d (js_index es index) h) ! r =
         (set_embedding d (js_index es index) h ! r)\<lparr>embedding := js_index es i\<rparr>"
      by (simp add: length_set_embedding)
    with same show ?thesis by simp
  qed
qed

lemma map_snd_enumerate: "map snd (enumerate n xs) = xs"
  by (simp add: enumerate_eq_zip)

lemma assign_embeddings_enumerate_frame:
  "Obj r \<notin> set xs \<Longrightarrow> assign_embeddings (enumerate n xs) es h ! r = h ! r"
proof (rule assign_embeddings_frame)
  assume "Obj r \<notin> set xs"
  moreover have "snd ` set (enumerate n xs) = set xs"
    by (metis map_snd_enumerate set_map)
  ultimately show "Obj r \<notin> snd ` set (enumerate n xs)"
    by simp
qed

lemma nth_in_enumerate: "i < length xs \<Longrightarrow> (i, xs ! i) \<in> set (enumerate 0 xs)"
  by (simp add: in_set_enumerate_eq)

text \<open>An assignment changes the embedding of an object and nothing else.\<close>

lemma set_embedding_up_to: "\<exists>e'. set_embedding d e h ! r = (h ! r)\<lparr>embedding := e'\<rparr>"
proof (cases d)
  case (Obj r')
  show ?thesis
  proof (cases "r' = r \<and> r < length h")
    case True
    with Obj show ?thesis by auto
  next
    case False
    then have "h[r' := (h ! r')\<lparr>embedding := e\<rparr>] ! r = h ! r"
      by (cases "r' = r") (simp_all add: list_update_beyond)
    then have "set_embedding d e h ! r = (h ! r)\<lparr>embedding := embedding (h ! r)\<rparr>"
      by (simp add: Obj)
    then show ?thesis by blast
  qed
next
  case (Num x)
  then have "set_embedding d e h ! r = (h ! r)\<lparr>embedding := embedding (h ! r)\<rparr>" by simp
  then show ?thesis by blast
qed

lemma assign_embeddings_up_to:
  "\<exists>e'. assign_embeddings ps es h ! r = (h ! r)\<lparr>embedding := e'\<rparr>"
proof (induction ps es h rule: assign_embeddings.induct)
  case (1 es h)
  have "assign_embeddings [] es h ! r = (h ! r)\<lparr>embedding := embedding (h ! r)\<rparr>" by simp
  then show ?case by blast
next
  case (2 index d rest es h)
  then obtain e1 where "assign_embeddings rest es (set_embedding d (js_index es index) h) ! r =
      (set_embedding d (js_index es index) h ! r)\<lparr>embedding := e1\<rparr>" by blast
  moreover obtain e2 where "set_embedding d (js_index es index) h ! r =
      (h ! r)\<lparr>embedding := e2\<rparr>"
    using set_embedding_up_to by blast
  ultimately have "assign_embeddings ((index, d) # rest) es h ! r = (h ! r)\<lparr>embedding := e1\<rparr>"
    by simp
  then show ?case by blast
qed

text \<open>
  An object among the assigned ones ends with the vector at the last position at which it
  occurs.
\<close>

lemma assign_embeddings_last:
  "Obj r \<in> set xs \<Longrightarrow> r < length h \<Longrightarrow>
   \<exists>j < length xs. xs ! j = Obj r \<and> (\<forall>k < length xs. xs ! k = Obj r \<longrightarrow> k \<le> j) \<and>
     assign_embeddings (enumerate n xs) es h ! r = (h ! r)\<lparr>embedding := js_index es (n + j)\<rparr>"
proof (induction xs arbitrary: n h)
  case Nil
  then show ?case by simp
next
  case (Cons x xs)
  let ?h1 = "set_embedding x (js_index es n) h"
  show ?case
  proof (cases "Obj r \<in> set xs")
    case True
    from Cons.prems have "r < length ?h1" by (simp add: length_set_embedding)
    from Cons.IH [OF True this, of "Suc n"] obtain j where j: "j < length xs" "xs ! j = Obj r"
      "\<forall>k < length xs. xs ! k = Obj r \<longrightarrow> k \<le> j"
      "assign_embeddings (enumerate (Suc n) xs) es ?h1 ! r =
         (?h1 ! r)\<lparr>embedding := js_index es (Suc n + j)\<rparr>"
      by blast
    obtain e' where "?h1 ! r = (h ! r)\<lparr>embedding := e'\<rparr>"
      using set_embedding_up_to by blast
    with j(4) have a: "assign_embeddings (enumerate n (x # xs)) es h ! r =
        (h ! r)\<lparr>embedding := js_index es (n + Suc j)\<rparr>"
      by simp
    from j(3) have "\<forall>k < length (x # xs). (x # xs) ! k = Obj r \<longrightarrow> k \<le> Suc j"
      by (auto simp add: nth_Cons split: nat.splits)
    with j(1,2) a show ?thesis
      by (intro exI [of _ "Suc j"]) simp
  next
    case False
    with Cons.prems have x: "x = Obj r" by simp
    from False have "assign_embeddings (enumerate (Suc n) xs) es ?h1 ! r = ?h1 ! r"
      by (rule assign_embeddings_enumerate_frame)
    with x Cons.prems(2) have a: "assign_embeddings (enumerate n (x # xs)) es h ! r =
        (h ! r)\<lparr>embedding := js_index es (n + 0)\<rparr>"
      by simp
    have "\<forall>k < length (x # xs). (x # xs) ! k = Obj r \<longrightarrow> k \<le> 0"
    proof (intro allI impI)
      fix k assume k: "k < length (x # xs)" "(x # xs) ! k = Obj r"
      show "k \<le> 0"
      proof (cases k)
        case 0
        then show ?thesis by simp
      next
        case (Suc k')
        with k have "xs ! k' = Obj r" "k' < length xs" by simp_all
        then have "Obj r \<in> set xs" using nth_mem by metis
        with False show ?thesis by simp
      qed
    qed
    with x a show ?thesis
      by (intro exI [of _ 0]) simp
  qed
qed

text \<open>The first check: a document with no embedding and no (or empty) contents.\<close>

lemma computeEmbeddings_throws:
  assumes "d \<in> set docs" "falsy_string (contents (get_doc (heap w) d))"
    "falsy_array (embedding (get_doc (heap w) d))"
  shows "computeEmbeddings docs ef w =
     (Inl (Error (''The following documents have neither contents nor embeddings: '' @
        join '', '' (map (\<lambda>v. id_text (doc_id (get_doc (heap w) v)))
          (filter (\<lambda>v. falsy_string (contents (get_doc (heap w) v)) \<and>
                        falsy_array (embedding (get_doc (heap w) v))) docs)))), w)"
proof -
  from assms have "filter (\<lambda>v. falsy_string (contents (get_doc (heap w) v)) \<and>
                        falsy_array (embedding (get_doc (heap w) v))) docs \<noteq> []"
    by (auto simp add: filter_empty_conv)
  then show ?thesis
    by (simp add: computeEmbeddings_def Let_def)
qed

text \<open>
  Claim C4 says that, on documents that all pass the check and of which one at least has
  no embedding, \<^const>\<open>computeEmbeddings\<close> returns the documents as a new sequence and gives
  the i-th returned vector to the i-th document without embedding. The source assigns to
  the caller's own objects and returns the array it was given: below, the object at
  reference 0 is changed in the caller's heap, and where the same object occurs twice in
  the array, it is assigned twice and keeps the second vector, not the first.
\<close>

theorem computeEmbeddings_assigns_in_place:
  "computeEmbeddings [Obj 0] (\<lambda>texts. Inr [[1]])
     \<lparr>heap = [\<lparr>doc_id = Some ''d'', embedding = None, metadata = None, contents = Some ''a''\<rparr>],
      generate_calls = []\<rparr> =
   (Inr [Obj 0],
     \<lparr>heap = [\<lparr>doc_id = Some ''d'', embedding = Some [1], metadata = None,
               contents = Some ''a''\<rparr>],
      generate_calls = [[Some ''a'']]\<rparr>) \<and>
   computeEmbeddings [Obj 0, Obj 0] (\<lambda>texts. Inr [[1], [2]])
     \<lparr>heap = [\<lparr>doc_id = Some ''d'', embedding = None, metadata = None, contents = Some ''a''\<rparr>],
      generate_calls = []\<rparr> =
   (Inr [Obj 0, Obj 0],
     \<lparr>heap = [\<lparr>doc_id = Some ''d'', embedding = Some [2], metadata = None,
               contents = Some ''a''\<rparr>],
      generate_calls = [[Some ''a'', Some ''a'']]\<rparr>)"
  by (simp add: computeEmbeddings_def js_index_def enumerate_eq_zip upt_rec)

text \<open>
  Claim C4, amended. On documents that all pass the check (each has an embedding or
  non-empty contents) and of which one at least has no embedding: \<^verbatim>\<open>generate\<close> is
  called exactly once, with the contents (all present and non-empty) of the documents
  without embedding in their input order. If \<^verbatim>\<open>generate\<close> rejects, so does the call,
  the heap unchanged. If it returns vectors, the call returns the sequence of the same
  document objects in the same order; the documents that had an embedding, and every object
  that is not a document without embedding, are as before; each document without
  embedding (an allocated object) has been assigned, in place, the vector at the last
  position at which that same object occurs among the documents without embedding
  (\<^verbatim>\<open>undefined\<close> if there are fewer vectors) and is otherwise as before: the i-th
  vector for the i-th such document when these documents are pairwise distinct objects.
\<close>

theorem computeEmbeddings_resolves_missing:
  assumes valid: "\<forall>d \<in> set docs.
        (contents (get_doc (heap w) d) \<noteq> None \<and> contents (get_doc (heap w) d) \<noteq> Some []) \<or>
        embedding (get_doc (heap w) d) \<noteq> None"
    and some: "\<exists>d \<in> set docs. embedding (get_doc (heap w) d) = None"
    and missing: "missing = filter (\<lambda>d. embedding (get_doc (heap w) d) = None) docs"
    and texts: "texts = map (\<lambda>d. contents (get_doc (heap w) d)) missing"
  shows "(\<forall>t \<in> set texts. \<exists>s. t = Some s \<and> s \<noteq> []) \<and>
     (\<forall>e. ef texts = Inl e \<longrightarrow>
        computeEmbeddings docs ef w =
          (Inl e, \<lparr>heap = heap w, generate_calls = generate_calls w @ [texts]\<rparr>)) \<and>
     (\<forall>es. ef texts = Inr es \<longrightarrow>
        (\<exists>h'. computeEmbeddings docs ef w =
                (Inr docs, \<lparr>heap = h', generate_calls = generate_calls w @ [texts]\<rparr>) \<and>
              length h' = length (heap w) \<and>
              (\<forall>d \<in> set docs. embedding (get_doc (heap w) d) \<noteq> None \<longrightarrow>
                 get_doc h' d = get_doc (heap w) d) \<and>
              (\<forall>r. Obj r \<notin> set missing \<longrightarrow> h' ! r = heap w ! r) \<and>
              (\<forall>i < length missing. \<forall>r < length (heap w). missing ! i = Obj r \<longrightarrow>
                 (\<exists>j < length missing. missing ! j = missing ! i \<and>
                    (\<forall>k < length missing. missing ! k = missing ! i \<longrightarrow> k \<le> j) \<and>
                    h' ! r = (heap w ! r)\<lparr>embedding := js_index es j\<rparr>)) \<and>
              (distinct missing \<longrightarrow>
                 (\<forall>i < length missing. \<forall>r < length (heap w). missing ! i = Obj r \<longrightarrow>
                    h' ! r = (heap w ! r)\<lparr>embedding := js_index es i\<rparr>))))"
proof -
  let ?bad = "filter (\<lambda>d. falsy_string (contents (get_doc (heap w) d)) \<and>
                          falsy_array (embedding (get_doc (heap w) d))) docs"
  have m: "filter (\<lambda>d. falsy_array (embedding (get_doc (heap w) d))) docs = missing"
    by (simp add: missing falsy_array_iff)
  from valid have bad: "?bad = []"
    by (auto simp add: filter_empty_conv falsy_array_iff falsy_string_iff)
  from some have ne: "missing \<noteq> []"
    by (auto simp add: missing filter_empty_conv)
  have objs: "\<exists>r. d = Obj r" if "d \<in> set docs" for d
  proof (cases d)
    case (Obj r)
    then show ?thesis by simp
  next
    case (Num x)
    with that valid show ?thesis by force
  qed
  have t: "\<forall>t \<in> set texts. \<exists>s. t = Some s \<and> s \<noteq> []"
    using valid by (auto simp add: texts missing)
  have ce: "computeEmbeddings docs ef w =
      (case ef texts of
         Inl e \<Rightarrow> (Inl e, \<lparr>heap = heap w, generate_calls = generate_calls w @ [texts]\<rparr>)
       | Inr es \<Rightarrow> (Inr docs,
           \<lparr>heap = assign_embeddings (enumerate 0 missing) es (heap w),
            generate_calls = generate_calls w @ [texts]\<rparr>))"
    using bad ne by (simp add: computeEmbeddings_def m texts split: sum.splits)
  have res: "length h' = length (heap w) \<and>
      (\<forall>d \<in> set docs. embedding (get_doc (heap w) d) \<noteq> None \<longrightarrow>
         get_doc h' d = get_doc (heap w) d) \<and>
      (\<forall>r. Obj r \<notin> set missing \<longrightarrow> h' ! r = heap w ! r) \<and>
      (\<forall>i < length missing. \<forall>r < length (heap w). missing ! i = Obj r \<longrightarrow>
         (\<exists>j < length missing. missing ! j = missing ! i \<and>
            (\<forall>k < length missing. missing ! k = missing ! i \<longrightarrow> k \<le> j) \<and>
            h' ! r = (heap w ! r)\<lparr>embedding := js_index es j\<rparr>)) \<and>
      (distinct missing \<longrightarrow>
         (\<forall>i < length missing. \<forall>r < length (heap w). missing ! i = Obj r \<longrightarrow>
            h' ! r = (heap w ! r)\<lparr>embedding := js_index es i\<rparr>))"
    if h': "h' = assign_embeddings (enumerate 0 missing) es (heap w)" for h' es
  proof (intro conjI allI impI ballI)
    show "length h' = length (heap w)"
      by (simp add: h' length_assign_embeddings)
  next
    fix d assume d: "d \<in> set docs" "embedding (get_doc (heap w) d) \<noteq> None"
    then obtain r where r: "d = Obj r" using objs by blast
    with d have "Obj r \<notin> set missing" by (simp add: missing)
    then have "h' ! r = heap w ! r"
      unfolding h' by (rule assign_embeddings_enumerate_frame)
    with r show "get_doc h' d = get_doc (heap w) d" by simp
  next
    fix r assume "Obj r \<notin> set missing"
    then show "h' ! r = heap w ! r"
      unfolding h' by (rule assign_embeddings_enumerate_frame)
  next
    fix i r assume i: "i < length missing" and r: "r < length (heap w)" "missing ! i = Obj r"
    from i r have "Obj r \<in> set missing" using nth_mem [of i missing] by simp
    from assign_embeddings_last [OF this r(1), of 0 es] r(2)
    show "\<exists>j < length missing. missing ! j = missing ! i \<and>
            (\<forall>k < length missing. missing ! k = missing ! i \<longrightarrow> k \<le> j) \<and>
            h' ! r = (heap w ! r)\<lparr>embedding := js_index es j\<rparr>"
      unfolding h' by simp
  next
    fix i r assume dist: "distinct missing"
      and i: "i < length missing" and r: "r < length (heap w)" "missing ! i = Obj r"
    from i r have "(i, Obj r) \<in> set (enumerate 0 missing)"
      using nth_in_enumerate [of i missing] by simp
    with dist r show "h' ! r = (heap w ! r)\<lparr>embedding := js_index es i\<rparr>"
      unfolding h' by (intro assign_embeddings_hit) (simp_all add: map_snd_enumerate)
  qed
  show ?thesis
  proof (intro conjI allI impI)
    show "\<forall>t \<in> set texts. \<exists>s. t = Some s \<and> s \<noteq> []" by (rule t)
  next
    fix e assume "ef texts = Inl e"
    with ce show "computeEmbeddings docs ef w =
        (Inl e, \<lparr>heap = heap w, generate_calls = generate_calls w @ [texts]\<rparr>)" by simp
  next
    fix es assume "ef texts = Inr es"
    with ce have "computeEmbeddings docs ef w =
       (Inr docs, \<lparr>heap = assign_embeddings (enumerate 0 missing) es (heap w),
                   generate_calls = generate_calls w @ [texts]\<rparr>)" by simp
    with res [OF refl, of es]
    show "\<exists>h'. computeEmbeddings docs ef w =
                (Inr docs, \<lparr>heap = h', generate_calls = generate_calls w @ [texts]\<rparr>) \<and>
              length h' = length (heap w) \<and>
              (\<forall>d \<in> set docs. embedding (get_doc (heap w) d) \<noteq> None \<longrightarrow>
                 get_doc h' d = get_doc (heap w) d) \<and>
              (\<forall>r. Obj r \<notin> set missing \<longrightarrow> h' ! r = heap w ! r) \<and>
              (\<forall>i < length missing. \<forall>r < length (heap w). missing ! i = Obj r \<longrightarrow>
                 (\<exists>j < length missing. missing ! j = missing ! i \<and>
                    (\<forall>k < length missing. missing ! k = missing ! i \<longrightarrow> k \<le> j) \<and>
                    h' ! r = (heap w ! r)\<lparr>embedding := js_index es j\<rparr>)) \<and>
              (distinct missing \<longrightarrow>
                 (\<forall>i < length missing. \<forall>r < length (heap w). missing ! i = Obj r \<longrightarrow>
                    h' ! r = (heap w ! r)\<lparr>embedding := js_index es i\<rparr>))"
      by blast
  qed
qed


theorem computeEmbeddings_resolves_missing_witness:
  "(\<exists>h'. computeEmbeddings [Obj 1, Obj 0, Obj 2] (\<lambda>texts. Inr [[1], [2]])
          \<lparr>heap = [\<lparr>doc_id = Some ''e'', embedding = Some [9], metadata = None, contents = None\<rparr>,
                   \<lparr>doc_id = Some ''a'', embedding = None, metadata = None, contents = Some ''x''\<rparr>,
                   \<lparr>doc_id = Some ''b'', embedding = None, metadata = None, contents = Some ''y''\<rparr>],
           generate_calls = []\<rparr> =
        (Inr [Obj 1, Obj 0, Obj 2],
         \<lparr>heap = h', generate_calls = [[Some ''x'', Some ''y'']]\<rparr>) \<and>
      length h' = 3 \<and>
      h' ! 0 = \<lparr>doc_id = Some ''e'', embedding = Some [9], metadata = None, contents = None\<rparr> \<and>
      h' ! 1 = \<lparr>doc_id = Some ''a'', embedding = Some [1], metadata = None,
                contents = Some ''x''\<rparr> \<and>
      h' ! 2 = \<lparr>doc_id = Some ''b'', embedding = Some [2], metadata = None,
                contents = Some ''y''\<rparr>) \<and>
   (\<exists>h'. computeEmbeddings [Obj 0, Obj 0] (\<lambda>texts. Inr [[1], [2]])
          \<lparr>heap = [\<lparr>doc_id = Some ''d'', embedding = None, metadata = None,
                    contents = Some ''a''\<rparr>],
           generate_calls = []\<rparr> =
        (Inr [Obj 0, Obj 0],
         \<lparr>heap = h', generate_calls = [[Some ''a'', Some ''a'']]\<rparr>) \<and>
      length h' = 1 \<and>
      h' ! 0 = \<lparr>doc_id = Some ''d'', embedding = Some [2], metadata = None,
                contents = Some ''a''\<rparr>)"
proof
  let ?h = "[\<lparr>doc_id = Some ''e'', embedding = Some [9], metadata = None, contents = None\<rparr>,
             \<lparr>doc_id = Some ''a'', embedding = None, metadata = None, contents = Some ''x''\<rparr>,
             \<lparr>doc_id = Some ''b'', embedding = None, metadata = None, contents = Some ''y''\<rparr>]"
  let ?w = "\<lparr>heap = ?h, generate_calls = []\<rparr>"
  let ?docs = "[Obj 1, Obj 0, Obj 2]"
  let ?ef = "\<lambda>texts :: string option list. Inr [[1], [2]] :: error + Embedding list"
  have valid: "\<forall>d \<in> set ?docs.
        (contents (get_doc (heap ?w) d) \<noteq> None \<and> contents (get_doc (heap ?w) d) \<noteq> Some []) \<or>
        embedding (get_doc (heap ?w) d) \<noteq> None"
    by simp
  have some: "\<exists>d \<in> set ?docs. embedding (get_doc (heap ?w) d) = None" by simp
  have missing: "[Obj 1, Obj 2] = filter (\<lambda>d. embedding (get_doc (heap ?w) d) = None) ?docs"
    by simp
  have texts: "[Some ''x'', Some ''y''] =
      map (\<lambda>d. contents (get_doc (heap ?w) d)) [Obj 1, Obj 2]"
    by simp
  from computeEmbeddings_resolves_missing [OF valid some missing texts, of ?ef, THEN conjunct2, THEN conjunct2,
      THEN spec, of "[[1], [2]]", THEN mp, OF refl]
  obtain h' where ce: "computeEmbeddings ?docs ?ef ?w =
        (Inr ?docs, \<lparr>heap = h', generate_calls = generate_calls ?w @ [[Some ''x'', Some ''y'']]\<rparr>)"
    and len: "length h' = length (heap ?w)"
    and old: "\<forall>d \<in> set ?docs. embedding (get_doc (heap ?w) d) \<noteq> None \<longrightarrow>
        get_doc h' d = get_doc (heap ?w) d"
    and hit: "distinct [Obj 1, Obj 2 :: js_value] \<longrightarrow>
        (\<forall>i < length [Obj 1, Obj 2 :: js_value]. \<forall>r < length (heap ?w).
           [Obj 1, Obj 2] ! i = Obj r \<longrightarrow>
           h' ! r = (heap ?w ! r)\<lparr>embedding := js_index [[1], [2]] i\<rparr>)"
    by (elim exE conjE) (rule that; assumption)
  from hit have hit': "\<forall>i < 2. \<forall>r < 3. [Obj 1, Obj 2] ! i = Obj r \<longrightarrow>
           h' ! r = (?h ! r)\<lparr>embedding := js_index [[1], [2]] i\<rparr>"
    by simp
  from hit' [THEN spec, of 0, THEN mp, THEN spec, of 1] have h1:
    "h' ! 1 = \<lparr>doc_id = Some ''a'', embedding = Some [1], metadata = None,
      contents = Some ''x''\<rparr>"
    by (simp add: js_index_def)
  from hit' [THEN spec, of 1, THEN mp, THEN spec, of 2] have h2:
    "h' ! 2 = \<lparr>doc_id = Some ''b'', embedding = Some [2], metadata = None,
      contents = Some ''y''\<rparr>"
    by (simp add: js_index_def)
  from old have h0: "h' ! 0 = \<lparr>doc_id = Some ''e'', embedding = Some [9], metadata = None,
      contents = None\<rparr>"
    by simp
  from ce len h0 h1 h2
  show "\<exists>h'. computeEmbeddings ?docs ?ef ?w =
        (Inr ?docs, \<lparr>heap = h', generate_calls = [[Some ''x'', Some ''y'']]\<rparr>) \<and>
      length h' = 3 \<and>
      h' ! 0 = \<lparr>doc_id = Some ''e'', embedding = Some [9], metadata = None, contents = None\<rparr> \<and>
      h' ! 1 = \<lparr>doc_id = Some ''a'', embedding = Some [1], metadata = None,
                contents = Some ''x''\<rparr> \<and>
      h' ! 2 = \<lparr>doc_id = Some ''b'', embedding = Some [2], metadata = None,
                contents = Some ''y''\<rparr>"
    by simp
next
  let ?h = "[\<lparr>doc_id = Some ''d'', embedding = None, metadata = None, contents = Some ''a''\<rparr>]"
  let ?w = "\<lparr>heap = ?h, generate_calls = []\<rparr>"
  let ?docs = "[Obj 0, Obj 0]"
  let ?ef = "\<lambda>texts :: string option list. Inr [[1], [2]] :: error + Embedding list"
  have valid: "\<forall>d \<in> set ?docs.
        (contents (get_doc (heap ?w) d) \<noteq> None \<and> contents (get_doc (heap ?w) d) \<noteq> Some []) \<or>
        embedding (get_doc (heap ?w) d) \<noteq> None"
    by simp
  have some: "\<exists>d \<in> set ?docs. embedding (get_doc (heap ?w) d) = None" by simp
  have missing: "[Obj 0, Obj 0] = filter (\<lambda>d. embedding (get_doc (heap ?w) d) = None) ?docs"
    by simp
  have texts: "[Some ''a'', Some ''a''] =
      map (\<lambda>d. contents (get_doc (heap ?w) d)) [Obj 0, Obj 0]"
    by simp
  from computeEmbeddings_resolves_missing [OF valid some missing texts, of ?ef, THEN conjunct2, THEN conjunct2,
      THEN spec, of "[[1], [2]]", THEN mp, OF refl]
  obtain h' where ce: "computeEmbeddings ?docs ?ef ?w =
        (Inr ?docs, \<lparr>heap = h', generate_calls = generate_calls ?w @ [[Some ''a'', Some ''a'']]\<rparr>)"
    and len: "length h' = length (heap ?w)"
    and last: "\<forall>i < length [Obj 0, Obj 0 :: js_value]. \<forall>r < length (heap ?w).
        [Obj 0, Obj 0] ! i = Obj r \<longrightarrow>
        (\<exists>j < length [Obj 0, Obj 0 :: js_value]. [Obj 0, Obj 0 :: js_value] ! j = [Obj 0, Obj 0] ! i \<and>
           (\<forall>k < length [Obj 0, Obj 0 :: js_value].
              [Obj 0, Obj 0 :: js_value] ! k = [Obj 0, Obj 0] ! i \<longrightarrow> k \<le> j) \<and>
           h' ! r = (heap ?w ! r)\<lparr>embedding := js_index [[1], [2]] j\<rparr>)"
    by (elim exE conjE) (rule that; assumption)
  from last [THEN spec, of 0, THEN mp, THEN spec, of 0] obtain j where
    j: "j < Suc (Suc 0)"
      "\<forall>k < Suc (Suc 0). [Obj 0, Obj 0 :: js_value] ! k = Obj 0 \<longrightarrow> k \<le> j"
      "h' ! 0 = \<lparr>doc_id = Some ''d'', embedding = js_index [[1], [2]] j, metadata = None,
         contents = Some ''a''\<rparr>"
    by auto
  from j(2) [THEN spec, of 1] have "1 \<le> j" by simp
  with j(1) have "j = 1" by simp
  with j(3) have h0: "h' ! 0 = \<lparr>doc_id = Some ''d'', embedding = Some [2], metadata = None,
      contents = Some ''a''\<rparr>"
    by (simp add: js_index_def)
  from ce len h0
  show "\<exists>h'. computeEmbeddings ?docs ?ef ?w =
        (Inr ?docs, \<lparr>heap = h', generate_calls = [[Some ''a'', Some ''a'']]\<rparr>) \<and>
      length h' = 1 \<and>
      h' ! 0 = \<lparr>doc_id = Some ''d'', embedding = Some [2], metadata = None,
                contents = Some ''a''\<rparr>"
    by simp
qed

text \<open>
  Claim C5 says that the error names the offending documents by id, or by position when
  they have no id. The message is built from \<^verbatim>\<open>doc.id\<close> alone: a document without id
  adds the empty string to it. Below, the offending document is first in one call and
  second in the other, and the two errors are the same, with nothing after the colon.
\<close>

theorem computeEmbeddings_error_without_position:
  "computeEmbeddings [Obj 0, Obj 1] (\<lambda>texts. Inr (map (\<lambda>t. [0]) texts))
     \<lparr>heap = [\<lparr>doc_id = None, embedding = None, metadata = None, contents = None\<rparr>,
              \<lparr>doc_id = None, embedding = None, metadata = None, contents = Some ''q''\<rparr>],
      generate_calls = []\<rparr> =
   (Inl (Error ''The following documents have neither contents nor embeddings: ''),
     \<lparr>heap = [\<lparr>doc_id = None, embedding = None, metadata = None, contents = None\<rparr>,
              \<lparr>doc_id = None, embedding = None, metadata = None, contents = Some ''q''\<rparr>],
      generate_calls = []\<rparr>) \<and>
   computeEmbeddings [Obj 1, Obj 0] (\<lambda>texts. Inr (map (\<lambda>t. [0]) texts))
     \<lparr>heap = [\<lparr>doc_id = None, embedding = None, metadata = None, contents = None\<rparr>,
              \<lparr>doc_id = None, embedding = None, metadata = None, contents = Some ''q''\<rparr>],
      generate_calls = []\<rparr> =
   (Inl (Error ''The following documents have neither contents nor embeddings: ''),
     \<lparr>heap = [\<lparr>doc_id = None, embedding = None, metadata = None, contents = None\<rparr>,
              \<lparr>doc_id = None, embedding = None, metadata = None, contents = Some ''q''\<rparr>],
      generate_calls = []\<rparr>)"
  by (simp add: computeEmbeddings_def)

text \<open>
  Claim C5, amended. If some document of the sequence has neither contents nor an
  embedding, \<^const>\<open>computeEmbeddings\<close> fails with the error whose message is the fixed
  sentence followed by the ids, in input order and joined by a comma and a space, of all
  documents with no embedding and no (or empty) contents, a document without id giving the
  empty string; the heap is unchanged and \<^verbatim>\<open>generate\<close> is not called.
\<close>

theorem computeEmbeddings_missing_content:
  assumes "d \<in> set docs" "contents (get_doc (heap w) d) = None"
    "embedding (get_doc (heap w) d) = None"
  shows "computeEmbeddings docs ef w =
     (Inl (Error (''The following documents have neither contents nor embeddings: '' @
        join '', '' (map (\<lambda>v. id_text (doc_id (get_doc (heap w) v)))
          (filter (\<lambda>v. (contents (get_doc (heap w) v) = None \<or>
                         contents (get_doc (heap w) v) = Some []) \<and>
                        embedding (get_doc (heap w) v) = None) docs)))), w)"
  using computeEmbeddings_throws [of d docs w ef] assms
  by (simp add: falsy_array_iff falsy_string_iff)

theorem computeEmbeddings_missing_content_witness:
  "computeEmbeddings [Obj 0, Obj 1, Obj 2] (\<lambda>texts. Inr (map (\<lambda>t. [0]) texts))
     \<lparr>heap = [\<lparr>doc_id = Some ''d1'', embedding = None, metadata = None, contents = None\<rparr>,
              \<lparr>doc_id = Some ''d2'', embedding = None, metadata = None, contents = Some ''q''\<rparr>,
              \<lparr>doc_id = Some ''d3'', embedding = None, metadata = None, contents = None\<rparr>],
      generate_calls = []\<rparr> =
   (Inl (Error ''The following documents have neither contents nor embeddings: d1, d3''),
     \<lparr>heap = [\<lparr>doc_id = Some ''d1'', embedding = None, metadata = None, contents = None\<rparr>,
              \<lparr>doc_id = Some ''d2'', embedding = None, metadata = None, contents = Some ''q''\<rparr>,
              \<lparr>doc_id = Some ''d3'', embedding = None, metadata = None, contents = None\<rparr>],
      generate_calls = []\<rparr>)"
  using computeEmbeddings_missing_content
    [of "Obj 0" "[Obj 0, Obj 1, Obj 2]"
        "\<lparr>heap = [\<lparr>doc_id = Some ''d1'', embedding = None, metadata = None, contents = None\<rparr>,
              \<lparr>doc_id = Some ''d2'', embedding = None, metadata = None, contents = Some ''q''\<rparr>,
              \<lparr>doc_id = Some ''d3'', embedding = None, metadata = None, contents = None\<rparr>],
          generate_calls = []\<rparr>"
        "\<lambda>texts. Inr (map (\<lambda>t. [0]) texts)"]
  by simp

text \<open>
  Claim C7: if every document of the sequence carries an embedding,
  \<^const>\<open>computeEmbeddings\<close> returns the sequence it was given and leaves the heap and the
  record of the calls of \<^verbatim>\<open>generate\<close> as they were (no call is made); hence resolving
  what a first call returned makes no call either.
\<close>

theorem computeEmbeddings_all_embedded:
  assumes "\<forall>d \<in> set docs. embedding (get_doc (heap w) d) \<noteq> None"
  shows "computeEmbeddings docs ef w = (Inr docs, w) \<and>
         (\<forall>r w1. computeEmbeddings docs ef w = (Inr r, w1) \<longrightarrow>
            computeEmbeddings r ef w1 = (Inr r, w1) \<and> generate_calls w1 = generate_calls w)"
proof -
  from assms have "filter (\<lambda>d. falsy_array (embedding (get_doc (heap w) d))) docs = []"
    by (simp add: falsy_array_iff filter_empty_conv)
  moreover from assms
  have "filter (\<lambda>d. falsy_string (contents (get_doc (heap w) d)) \<and>
                     falsy_array (embedding (get_doc (heap w) d))) docs = []"
    by (simp add: falsy_array_iff filter_empty_conv)
  ultimately have "computeEmbeddings docs ef w = (Inr docs, w)"
    by (simp add: computeEmbeddings_def)
  then show ?thesis by simp
qed

theorem computeEmbeddings_all_embedded_witness:
  "computeEmbeddings [Obj 0, Obj 1] (\<lambda>texts. Inr (map (\<lambda>t. [0]) texts))
     \<lparr>heap = [\<lparr>doc_id = Some ''a'', embedding = Some [1, 2], metadata = None,
               contents = Some ''x''\<rparr>,
              \<lparr>doc_id = Some ''b'', embedding = Some [], metadata = None, contents = None\<rparr>],
      generate_calls = []\<rparr> =
   (Inr [Obj 0, Obj 1],
     \<lparr>heap = [\<lparr>doc_id = Some ''a'', embedding = Some [1, 2], metadata = None,
               contents = Some ''x''\<rparr>,
              \<lparr>doc_id = Some ''b'', embedding = Some [], metadata = None, contents = None\<rparr>],
      generate_calls = []\<rparr>)"
  using computeEmbeddings_all_embedded
    [of "[Obj 0, Obj 1]"
        "\<lparr>heap = [\<lparr>doc_id = Some ''a'', embedding = Some [1, 2], metadata = None,
               contents = Some ''x''\<rparr>,
              \<lparr>doc_id = Some ''b'', embedding = Some [], metadata = None, contents = None\<rparr>],
          generate_calls = []\<rparr>"
        "\<lambda>texts. Inr (map (\<lambda>t. [0]) texts)"]
  by simp

text \<open>
  Claim C10: a document whose contents is the empty string and which has no embedding makes
  \<^const>\<open>computeEmbeddings\<close> fail with the missing-content error, as a document without
  contents does; the heap and the record of the calls of \<^verbatim>\<open>generate\<close> are unchanged, so
  the empty contents is not submitted.
\<close>

theorem computeEmbeddings_empty_contents:
  assumes "d \<in> set docs" "contents (get_doc (heap w) d) = Some []"
    "embedding (get_doc (heap w) d) = None"
  shows "\<exists>msg. computeEmbeddings docs ef w =
     (Inl (Error (''The following documents have neither contents nor embeddings: '' @ msg)), w)"
  using computeEmbeddings_throws [of d docs w ef] assms by simp

theorem computeEmbeddings_empty_contents_witness:
  "computeEmbeddings [Obj 0, Obj 1] (\<lambda>texts. Inr (map (\<lambda>t. [0]) texts))
     \<lparr>heap = [\<lparr>doc_id = Some ''d1'', embedding = None, metadata = None, contents = Some ''q''\<rparr>,
              \<lparr>doc_id = Some ''d2'', embedding = None, metadata = None, contents = Some []\<rparr>],
      generate_calls = []\<rparr> =
   (Inl (Error ''The following documents have neither contents nor embeddings: d2''),
     \<lparr>heap = [\<lparr>doc_id = Some ''d1'', embedding = None, metadata = None, contents = Some ''q''\<rparr>,
              \<lparr>doc_id = Some ''d2'', embedding = None, metadata = None, contents = Some []\<rparr>],
      generate_calls = []\<rparr>)"
proof -
  let ?w = "\<lparr>heap = [\<lparr>doc_id = Some ''d1'', embedding = None, metadata = None,
                      contents = Some ''q''\<rparr>,
                     \<lparr>doc_id = Some ''d2'', embedding = None, metadata = None,
                      contents = Some []\<rparr>],
             generate_calls = []\<rparr>"
  let ?ef = "\<lambda>texts :: string option list. Inr (map (\<lambda>t. [0]) texts) :: error + Embedding list"
  have "\<exists>msg. computeEmbeddings [Obj 0, Obj 1] ?ef ?w =
     (Inl (Error (''The following documents have neither contents nor embeddings: '' @ msg)), ?w)"
    by (rule computeEmbeddings_empty_contents [of "Obj 1"]) simp_all
  moreover have "snd (computeEmbeddings [Obj 0, Obj 1] ?ef ?w) = ?w \<longrightarrow>
      computeEmbeddings [Obj 0, Obj 1] ?ef ?w =
        (Inl (Error ''The following documents have neither contents nor embeddings: d2''), ?w)"
    by (simp add: computeEmbeddings_def)
  ultimately show ?thesis by auto
qed

section \<open>queryDocuments: proofs\<close>


lemma map_throwing_Inr:
  "(\<And>x. x \<in> set xs \<Longrightarrow> f x = Inr (g x)) \<Longrightarrow> map_throwing f xs = Inr (map g xs)"
  by (induction xs) simp_all

lemma enumerate_upt: "enumerate 0 xs = map (\<lambda>i. (i, xs ! i)) [0..<length xs]"
  by (auto simp add: nth_enumerate_eq intro!: nth_equalityI)

lemma reassemble_Inr:
  assumes "\<forall>index < length (resp_ids response).
      parallelArraysToDocs (response_entry response index (resp_ids response ! index)) =
        Inr (neighbours index)"
  shows "map_throwing (query_bundle queryDocs response) (enumerate 0 (resp_ids response)) =
     Inr (map (\<lambda>index.
            \<lparr>queryDoc = js_index queryDocs index,
             results = map (\<lambda>i. \<lparr>doc = neighbours index ! i,
                                  distance = distance_at response index i\<rparr>)
                           [0..<length (neighbours index)]\<rparr>)
          [0..<length (resp_ids response)])"
proof -
  have "map_throwing (query_bundle queryDocs response)
          (map (\<lambda>i. (i, resp_ids response ! i)) [0..<length (resp_ids response)]) =
        Inr (map (\<lambda>(index, nids).
            \<lparr>queryDoc = js_index queryDocs index,
             results = map (\<lambda>i. \<lparr>doc = neighbours index ! i,
                                  distance = distance_at response index i\<rparr>)
                           [0..<length (neighbours index)]\<rparr>)
          (map (\<lambda>i. (i, resp_ids response ! i)) [0..<length (resp_ids response)]))"
    using assms
    by (intro map_throwing_Inr) (auto simp add: query_bundle_def enumerate_upt)
  then show ?thesis
    by (simp add: enumerate_upt comp_def)
qed

lemma queryDocuments_returns:
  assumes init: "initPromise client = Inr u"
    and norm: "map_docQueryToQueryDoc (toArray (query params)) (heap w) = (queryDocs, h1)"
    and comp: "computeEmbeddings queryDocs (embeddingFunction collection) (w\<lparr>heap := h1\<rparr>) =
        (Inr docsWithEmbeddings, w2)"
    and server: "getNearestNeighbors client (collection_id collection)
        \<lparr>query_embeddings = map (\<lambda>d. embedding (get_doc (heap w2) d)) docsWithEmbeddings,
         where_r = where_q params,
         n_results = (case nResults params of None \<Rightarrow> 10 | Some n \<Rightarrow> n),
         where_document = whereDocument params,
         include_r = include_q params\<rparr> = Inr response"
    and dec: "\<forall>index < length (resp_ids response).
        parallelArraysToDocs (response_entry response index (resp_ids response ! index)) =
          Inr (neighbours index)"
    and bundles: "bundles = map (\<lambda>index.
            \<lparr>queryDoc = js_index queryDocs index,
             results = map (\<lambda>i. \<lparr>doc = neighbours index ! i,
                                  distance = distance_at response index i\<rparr>)
                           [0..<length (neighbours index)]\<rparr>)
          [0..<length (resp_ids response)]"
  shows "queryDocuments client collection params w =
     (Inr (if isArray (query params) then MultiResult bundles
           else SingleResult (js_index bundles 0)), w2)"
  using init norm comp server reassemble_Inr [OF dec, of queryDocs]
  by (simp add: queryDocuments_def bundles)


lemma contents_set_embedding: "contents (set_embedding d e h ! r) = contents (h ! r)"
proof (cases d)
  case (Obj r')
  show ?thesis
  proof (cases "r' = r \<and> r < length h")
    case True
    with Obj show ?thesis by simp
  next
    case False
    then consider "r' \<noteq> r" | "r' = r" "\<not> r < length h" by blast
    then show ?thesis
    proof cases
      case 1
      with Obj show ?thesis by simp
    next
      case 2
      with Obj show ?thesis by (simp add: list_update_beyond)
    qed
  qed
next
  case (Num x)
  then show ?thesis by simp
qed

lemma contents_assign_embeddings:
  "contents (assign_embeddings ps es h ! r) = contents (h ! r)"
  by (induction ps es h rule: assign_embeddings.induct) (simp_all add: contents_set_embedding)

text \<open>What a call that returns leaves of the heap.\<close>

lemma computeEmbeddings_Inr:
  assumes "computeEmbeddings docs ef w = (Inr ds, w')"
  shows "ds = docs" and "length (heap w') = length (heap w)"
    and "contents (heap w' ! r) = contents (heap w ! r)"
    and "embedding (heap w ! r) \<noteq> None \<Longrightarrow> heap w' ! r = heap w ! r"
proof -
  let ?missing = "filter (\<lambda>d. falsy_array (embedding (get_doc (heap w) d))) docs"
  have "ds = docs \<and> (heap w' = heap w \<or>
      (\<exists>es. heap w' = assign_embeddings (enumerate 0 ?missing) es (heap w)))"
    using assms
    by (auto simp add: computeEmbeddings_def Let_def split: if_splits sum.splits)
  then have ds: "ds = docs" and h: "heap w' = heap w \<or>
      (\<exists>es. heap w' = assign_embeddings (enumerate 0 ?missing) es (heap w))"
    by simp_all
  show "ds = docs" by (rule ds)
  from h show "length (heap w') = length (heap w)"
    by (auto simp add: length_assign_embeddings)
  from h show "contents (heap w' ! r) = contents (heap w ! r)"
    by (auto simp add: contents_assign_embeddings)
  show "heap w' ! r = heap w ! r" if "embedding (heap w ! r) \<noteq> None"
  proof -
    from that have "Obj r \<notin> set ?missing" by (simp add: falsy_array_iff)
    then have "assign_embeddings (enumerate 0 ?missing) es (heap w) ! r = heap w ! r" for es
      by (rule assign_embeddings_enumerate_frame)
    with h show ?thesis by auto
  qed
qed

lemma normalised_append: "normalised h q v \<Longrightarrow> normalised (h @ ext) q v"
  by (cases q) (auto simp add: nth_append)

lemma docQueryToQueryDoc_normalised:
  "docQueryToQueryDoc (Query q) h = (v, h1) \<Longrightarrow> normalised h1 q v \<and> (\<exists>ext. h1 = h @ ext)"
  by (cases q) (auto simp add: alloc_def)

lemma map_docQueryToQueryDoc_normalised:
  "map_docQueryToQueryDoc (map Query qs) h = (vs, h1) \<Longrightarrow>
   length vs = length qs \<and> (\<exists>ext. h1 = h @ ext) \<and>
   (\<forall>i < length qs. normalised h1 (qs ! i) (vs ! i))"
proof (induction qs arbitrary: h vs h1)
  case Nil
  then show ?case by simp
next
  case (Cons q qs)
  obtain v ha where a: "docQueryToQueryDoc (Query q) h = (v, ha)"
    by (cases "docQueryToQueryDoc (Query q) h")
  obtain vs' hb where b: "map_docQueryToQueryDoc (map Query qs) ha = (vs', hb)"
    by (cases "map_docQueryToQueryDoc (map Query qs) ha")
  from Cons.prems a b have eq: "vs = v # vs'" "h1 = hb" by simp_all
  from docQueryToQueryDoc_normalised [OF a] obtain ext where
    nv: "normalised ha q v" and ha: "ha = h @ ext" by blast
  from Cons.IH [OF b] obtain ext' where
    len: "length vs' = length qs" and hb: "hb = ha @ ext'"
    and rest: "\<forall>i < length qs. normalised hb (qs ! i) (vs' ! i)" by blast
  from nv hb have "normalised hb q v" by (simp add: normalised_append)
  with rest have "\<forall>i < length (q # qs). normalised hb ((q # qs) ! i) ((v # vs') ! i)"
    by (simp add: nth_Cons split: nat.splits)
  with len ha hb show ?case by (simp add: eq)
qed


lemma computeEmbeddings_Inr_up_to:
  assumes "computeEmbeddings docs ef w = (Inr ds, w')"
  shows "\<exists>e'. heap w' ! r = (heap w ! r)\<lparr>embedding := e'\<rparr>"
proof -
  let ?missing = "filter (\<lambda>d. falsy_array (embedding (get_doc (heap w) d))) docs"
  have h: "heap w' = heap w \<or>
      (\<exists>es. heap w' = assign_embeddings (enumerate 0 ?missing) es (heap w))"
    using assms
    by (auto simp add: computeEmbeddings_def Let_def split: if_splits sum.splits)
  then show ?thesis
  proof
    assume "heap w' = heap w"
    then have "heap w' ! r = (heap w ! r)\<lparr>embedding := embedding (heap w ! r)\<rparr>" by simp
    then show ?thesis by blast
  next
    assume "\<exists>es. heap w' = assign_embeddings (enumerate 0 ?missing) es (heap w)"
    then show ?thesis using assign_embeddings_up_to by metis
  qed
qed

lemma normalised_computeEmbeddings:
  assumes ce: "computeEmbeddings docs ef w = (Inr ds, w')" and n: "normalised (heap w) q v"
  shows "normalised (heap w') q v"
proof (cases q)
  case (QueryText s)
  with n obtain r e where r: "r < length (heap w)" "v = Obj r"
    "heap w ! r = \<lparr>doc_id = None, embedding = e, metadata = None, contents = Some s\<rparr>"
    by auto
  from computeEmbeddings_Inr_up_to [OF ce, of r] obtain e' where
    "heap w' ! r = (heap w ! r)\<lparr>embedding := e'\<rparr>" by blast
  with r have "heap w' ! r = \<lparr>doc_id = None, embedding = e', metadata = None, contents = Some s\<rparr>"
    by simp
  with r computeEmbeddings_Inr(2) [OF ce] show ?thesis
    by (auto simp add: QueryText)
next
  case (QueryVector e)
  with n obtain r where r: "r < length (heap w)" "v = Obj r"
    "heap w ! r = \<lparr>doc_id = None, embedding = Some e, metadata = None, contents = None\<rparr>"
    by auto
  then have "embedding (heap w ! r) \<noteq> None" by simp
  from computeEmbeddings_Inr(4) [OF ce this] r computeEmbeddings_Inr(2) [OF ce]
  show ?thesis by (auto simp add: QueryVector)
next
  case (QueryObject r)
  with n show ?thesis by simp
qed

text \<open>Decoding an entry of the response does not read the distances.\<close>

lemma response_entry_distances:
  "response_entry (response\<lparr>resp_distances := ds\<rparr>) index nids =
     response_entry response index nids"
  by (simp add: response_entry_def)

lemma parallelArraysToDocs_Inr_length:
  "parallelArraysToDocs pa = Inr ds \<Longrightarrow> length ds = length (ids pa)"
  by (auto simp add: parallelArraysToDocs_def split: if_splits)

text \<open>
  Claim C3 says that a single query of each of the three kinds, a raw vector among them,
  gives a single bundle. A raw vector is an array, so \<^verbatim>\<open>queryDocuments\<close> takes it for
  a batch: its numbers are the queries, passed on unchanged by
  \<^verbatim>\<open>docQueryToQueryDoc\<close>, and \<^verbatim>\<open>computeEmbeddings\<close> rejects them, having neither
  contents nor embedding. The call below, on the vector 1, 2, fails with that error.
\<close>

theorem queryDocuments_raw_vector_rejected:
  "queryDocuments example_client example_collection (example_params (Single (QueryVector [1, 2])))
     \<lparr>heap = [], generate_calls = []\<rparr> =
   (Inl (Error ''The following documents have neither contents nor embeddings: , ''),
    \<lparr>heap = [], generate_calls = []\<rparr>)"
  by (simp add: queryDocuments_def example_client_def example_collection_def example_params_def
      computeEmbeddings_def)

text \<open>
  Whatever the steps before do, the last statement returns the array for a raw vector:
  the result is never a single bundle.
\<close>

lemma queryDocuments_raw_vector_never_single:
  "query params = Single (QueryVector v) \<Longrightarrow>
   fst (queryDocuments client collection params w) \<noteq> Inr (SingleResult b)"
  by (auto simp add: queryDocuments_def split: sum.splits prod.splits)

text \<open>The steps of the call on the two text queries of the spec's scenario 6.\<close>

lemma example_init: "initPromise example_client = Inr ()"
  by (simp add: example_client_def)

lemma example_batch:
  "query (example_params (Multi [QueryText ''doc1'', QueryText ''doc2''])) =
     Multi [QueryText ''doc1'', QueryText ''doc2'']"
  by (simp add: example_params_def)

lemma example_norm:
  "map_docQueryToQueryDoc
     (toArray (query (example_params (Multi [QueryText ''doc1'', QueryText ''doc2''])))) 
     (heap \<lparr>heap = [], generate_calls = []\<rparr>) =
   ([Obj 0, Obj 1],
    [\<lparr>doc_id = None, embedding = None, metadata = None, contents = Some ''doc1''\<rparr>,
     \<lparr>doc_id = None, embedding = None, metadata = None, contents = Some ''doc2''\<rparr>])"
  by (simp add: example_params_def alloc_def)

lemma example_comp:
  "computeEmbeddings [Obj 0, Obj 1] (embeddingFunction example_collection)
     (\<lparr>heap = [], generate_calls = []\<rparr>
      \<lparr>heap := [\<lparr>doc_id = None, embedding = None, metadata = None, contents = Some ''doc1''\<rparr>,
                \<lparr>doc_id = None, embedding = None, metadata = None,
                 contents = Some ''doc2''\<rparr>]\<rparr>) =
   (Inr [Obj 0, Obj 1], example_world)"
  by (simp add: computeEmbeddings_def example_collection_def example_world_def js_index_def
      enumerate_eq_zip upt_rec)

lemma example_server:
  "getNearestNeighbors example_client (collection_id example_collection) request =
     Inr example_response"
  by (simp add: example_client_def)

lemma example_dec:
  "\<forall>index < length (resp_ids example_response).
     parallelArraysToDocs
       (response_entry example_response index (resp_ids example_response ! index)) =
     Inr (example_neighbours index)"
  by (simp add: example_response_def example_neighbours_def response_entry_def
      parallelArraysToDocs_def js_index_def enumerate_eq_zip upt_rec less_Suc_eq)

lemma example_length: "length (resp_ids example_response) = 2"
  by (simp add: example_response_def)

text \<open>The documents an entry of the response decodes to, read off the arrays of the response.\<close>

lemma response_entry_decodes:
  assumes i: "i < length (resp_ids response)"
    and e: "\<forall>es. resp_embeddings response = Some es \<longrightarrow> i < length es \<longrightarrow>
        length (es ! i) = length (resp_ids response ! i)"
    and d: "\<forall>dss. resp_documents response = Some dss \<longrightarrow> i < length dss \<longrightarrow>
        length (dss ! i) = length (resp_ids response ! i)"
    and m: "\<forall>mss. resp_metadatas response = Some mss \<longrightarrow> i < length mss \<longrightarrow>
        length (mss ! i) = length (resp_ids response ! i)"
  shows "parallelArraysToDocs (response_entry response i (resp_ids response ! i)) =
     Inr (map (\<lambda>j.
            \<lparr>doc_id = Some (resp_ids response ! i ! j),
             embedding = (case resp_embeddings response of
                            None \<Rightarrow> None
                          | Some es \<Rightarrow> if i < length es then Some (es ! i ! j) else None),
             metadata = (case resp_metadatas response of
                           None \<Rightarrow> None
                         | Some mss \<Rightarrow> if i < length mss then mss ! i ! j else None),
             contents = (case resp_documents response of
                           None \<Rightarrow> None
                         | Some dss \<Rightarrow> if i < length dss then dss ! i ! j else None)\<rparr>)
          [0..<length (resp_ids response ! i)])"
proof -
  have ok: "\<not> length_differs (ids (response_entry response i (resp_ids response ! i)))
              (embeddings (response_entry response i (resp_ids response ! i)))"
    "\<not> length_differs (ids (response_entry response i (resp_ids response ! i)))
              (metadatas (response_entry response i (resp_ids response ! i)))"
    "\<not> length_differs (ids (response_entry response i (resp_ids response ! i)))
              (documents (response_entry response i (resp_ids response ! i)))"
  proof -
    show "\<not> length_differs (ids (response_entry response i (resp_ids response ! i)))
              (embeddings (response_entry response i (resp_ids response ! i)))"
      using e by (cases "resp_embeddings response") (simp_all add: response_entry_def js_index_def)
    show "\<not> length_differs (ids (response_entry response i (resp_ids response ! i)))
              (metadatas (response_entry response i (resp_ids response ! i)))"
      using m by (cases "resp_metadatas response") (simp_all add: response_entry_def js_index_def)
    show "\<not> length_differs (ids (response_entry response i (resp_ids response ! i)))
              (documents (response_entry response i (resp_ids response ! i)))"
      using d by (cases "resp_documents response") (simp_all add: response_entry_def js_index_def)
  qed
  have emb: "opt_index (embeddings (response_entry response i (resp_ids response ! i))) j =
      (case resp_embeddings response of
         None \<Rightarrow> None
       | Some es \<Rightarrow> if i < length es then Some (es ! i ! j) else None)"
    if "j < length (resp_ids response ! i)" for j
    using that e
    by (cases "resp_embeddings response") (simp_all add: response_entry_def js_index_def)
  have met: "opt_index (metadatas (response_entry response i (resp_ids response ! i))) j =
      (case resp_metadatas response of
         None \<Rightarrow> None
       | Some mss \<Rightarrow> if i < length mss then mss ! i ! j else None)"
    if "j < length (resp_ids response ! i)" for j
    using that m
    by (cases "resp_metadatas response") (simp_all add: response_entry_def js_index_def)
  have con: "opt_index (documents (response_entry response i (resp_ids response ! i))) j =
      (case resp_documents response of
         None \<Rightarrow> None
       | Some dss \<Rightarrow> if i < length dss then dss ! i ! j else None)"
    if "j < length (resp_ids response ! i)" for j
    using that d
    by (cases "resp_documents response") (simp_all add: response_entry_def js_index_def)
  have idl: "ids (response_entry response i (resp_ids response ! i)) =
      map Some (resp_ids response ! i)"
    by (simp add: response_entry_def)
  from ok have "parallelArraysToDocs (response_entry response i (resp_ids response ! i)) =
      Inr (map (\<lambda>(index, x).
                  \<lparr>doc_id = x,
                   embedding = opt_index (embeddings (response_entry response i
                       (resp_ids response ! i))) index,
                   metadata = opt_index (metadatas (response_entry response i
                       (resp_ids response ! i))) index,
                   contents = opt_index (documents (response_entry response i
                       (resp_ids response ! i))) index\<rparr>)
                (enumerate 0 (map Some (resp_ids response ! i))))"
    by (simp add: parallelArraysToDocs_def idl)
  also have "map (\<lambda>(index, x).
                  \<lparr>doc_id = x,
                   embedding = opt_index (embeddings (response_entry response i
                       (resp_ids response ! i))) index,
                   metadata = opt_index (metadatas (response_entry response i
                       (resp_ids response ! i))) index,
                   contents = opt_index (documents (response_entry response i
                       (resp_ids response ! i))) index\<rparr>)
                (enumerate 0 (map Some (resp_ids response ! i))) =
      map (\<lambda>j.
            \<lparr>doc_id = Some (resp_ids response ! i ! j),
             embedding = (case resp_embeddings response of
                            None \<Rightarrow> None
                          | Some es \<Rightarrow> if i < length es then Some (es ! i ! j) else None),
             metadata = (case resp_metadatas response of
                           None \<Rightarrow> None
                         | Some mss \<Rightarrow> if i < length mss then mss ! i ! j else None),
             contents = (case resp_documents response of
                           None \<Rightarrow> None
                         | Some dss \<Rightarrow> if i < length dss then dss ! i ! j else None)\<rparr>)
          [0..<length (resp_ids response ! i)]"
    by (rule nth_equalityI) (auto simp add: nth_enumerate_eq emb met con split: option.splits)
  finally show ?thesis .
qed


text \<open>
  Claim C6: for a batch of N queries, when the steps before the reassembly have returned
  (the initialisation, the normalisation of the queries, the resolution of their
  embeddings, the request) and the response has N entries, in each of which the rows of
  vectors, documents and metadata that are present are as long as the row of ids, the call
  returns N bundles. The bundle at position i holds the i-th normalised query document,
  which is the normalisation of the i-th query, and as many ranked results as the i-th row
  of ids has ids; the ranked result at position j is made of the id, the vector, the
  metadata, the document and the distance at row i and position j of the response (absent
  where the response has no such array or row, the distance zero).
\<close>

theorem queryDocuments_batch_order:
  assumes init: "initPromise client = Inr u"
    and batch: "query params = Multi qs"
    and norm: "map_docQueryToQueryDoc (toArray (query params)) (heap w) = (queryDocs, h1)"
    and comp: "computeEmbeddings queryDocs (embeddingFunction collection) (w\<lparr>heap := h1\<rparr>) =
        (Inr docsWithEmbeddings, w2)"
    and server: "getNearestNeighbors client (collection_id collection)
        \<lparr>query_embeddings = map (\<lambda>d. embedding (get_doc (heap w2) d)) docsWithEmbeddings,
         where_r = where_q params,
         n_results = (case nResults params of None \<Rightarrow> 10 | Some n \<Rightarrow> n),
         where_document = whereDocument params,
         include_r = include_q params\<rparr> = Inr response"
    and n: "length (resp_ids response) = length qs"
    and emb: "\<forall>i < length qs. \<forall>es. resp_embeddings response = Some es \<longrightarrow> i < length es \<longrightarrow>
        length (es ! i) = length (resp_ids response ! i)"
    and con: "\<forall>i < length qs. \<forall>dss. resp_documents response = Some dss \<longrightarrow> i < length dss \<longrightarrow>
        length (dss ! i) = length (resp_ids response ! i)"
    and met: "\<forall>i < length qs. \<forall>mss. resp_metadatas response = Some mss \<longrightarrow> i < length mss \<longrightarrow>
        length (mss ! i) = length (resp_ids response ! i)"
  shows "\<exists>bundles.
     queryDocuments client collection params w = (Inr (MultiResult bundles), w2) \<and>
     length bundles = length qs \<and>
     (\<forall>i < length qs.
        queryDoc (bundles ! i) = Some (queryDocs ! i) \<and>
        normalised (heap w2) (qs ! i) (queryDocs ! i) \<and>
        length (results (bundles ! i)) = length (resp_ids response ! i) \<and>
        (\<forall>j < length (resp_ids response ! i).
           doc (results (bundles ! i) ! j) =
             \<lparr>doc_id = Some (resp_ids response ! i ! j),
              embedding = (case resp_embeddings response of
                             None \<Rightarrow> None
                           | Some es \<Rightarrow> if i < length es then Some (es ! i ! j) else None),
              metadata = (case resp_metadatas response of
                            None \<Rightarrow> None
                          | Some mss \<Rightarrow> if i < length mss then mss ! i ! j else None),
              contents = (case resp_documents response of
                            None \<Rightarrow> None
                          | Some dss \<Rightarrow> if i < length dss then dss ! i ! j else None)\<rparr> \<and>
           distance (results (bundles ! i) ! j) =
             (case resp_distances response of
                None \<Rightarrow> 0
              | Some ds \<Rightarrow> if i < length ds \<and> j < length (ds ! i) then ds ! i ! j else 0)))"
proof -
  define raw where "raw i j =
             \<lparr>doc_id = Some (resp_ids response ! i ! j),
              embedding = (case resp_embeddings response of
                             None \<Rightarrow> None
                           | Some es \<Rightarrow> if i < length es then Some (es ! i ! j) else None),
              metadata = (case resp_metadatas response of
                            None \<Rightarrow> None
                          | Some mss \<Rightarrow> if i < length mss then mss ! i ! j else None),
              contents = (case resp_documents response of
                            None \<Rightarrow> None
                          | Some dss \<Rightarrow> if i < length dss then dss ! i ! j else None)\<rparr>" for i j
  define neighbours where
    "neighbours i = map (raw i) [0..<length (resp_ids response ! i)]" for i
  define bundles where "bundles = map (\<lambda>index.
            \<lparr>queryDoc = js_index queryDocs index,
             results = map (\<lambda>i. \<lparr>doc = neighbours index ! i,
                                  distance = distance_at response index i\<rparr>)
                           [0..<length (neighbours index)]\<rparr>)
          [0..<length (resp_ids response)]"
  have dec: "\<forall>index < length (resp_ids response).
        parallelArraysToDocs (response_entry response index (resp_ids response ! index)) =
          Inr (neighbours index)"
  proof (intro allI impI)
    fix index assume i: "index < length (resp_ids response)"
    with n emb con met show
      "parallelArraysToDocs (response_entry response index (resp_ids response ! index)) =
          Inr (neighbours index)"
      unfolding neighbours_def raw_def
      by (intro response_entry_decodes) simp_all
  qed
  from queryDocuments_returns [OF init norm comp server dec bundles_def] batch
  have q: "queryDocuments client collection params w = (Inr (MultiResult bundles), w2)"
    by simp
  from norm batch have m: "map_docQueryToQueryDoc (map Query qs) (heap w) = (queryDocs, h1)"
    by simp
  from map_docQueryToQueryDoc_normalised [OF m]
  have len: "length queryDocs = length qs"
    and nm: "\<forall>i < length qs. normalised h1 (qs ! i) (queryDocs ! i)" by simp_all
  have nm2: "normalised (heap w2) (qs ! i) (queryDocs ! i)" if "i < length qs" for i
    using normalised_computeEmbeddings [OF comp, of "qs ! i" "queryDocs ! i"] nm that by simp
  have d: "distance_at response index i =
      (case resp_distances response of
         None \<Rightarrow> 0
       | Some ds \<Rightarrow> if index < length ds \<and> i < length (ds ! index) then ds ! index ! i else 0)"
    for index i
    by (simp add: distance_at_def js_index_def split: option.splits)
  have b1: "queryDoc (bundles ! i) = Some (queryDocs ! i) \<and>
        length (results (bundles ! i)) = length (resp_ids response ! i)" if "i < length qs" for i
    using that n len by (simp add: bundles_def js_index_def neighbours_def)
  have b2: "doc (results (bundles ! i) ! j) = raw i j \<and>
      distance (results (bundles ! i) ! j) =
             (case resp_distances response of
                None \<Rightarrow> 0
              | Some ds \<Rightarrow> if i < length ds \<and> j < length (ds ! i) then ds ! i ! j else 0)"
    if "i < length qs" "j < length (resp_ids response ! i)" for i j
    using that n by (simp add: bundles_def neighbours_def d split: option.splits)
  have "length bundles = length qs" using n by (simp add: bundles_def)
  with q nm2 b1 b2 show ?thesis
    unfolding raw_def by (intro exI [of _ bundles]) blast
qed


theorem queryDocuments_batch_order_witness:
  "\<exists>bundles.
     queryDocuments example_client example_collection
       (example_params (Multi [QueryText ''doc1'', QueryText ''doc2'']))
       \<lparr>heap = [], generate_calls = []\<rparr> = (Inr (MultiResult bundles), example_world) \<and>
     length bundles = 2 \<and>
     queryDoc (bundles ! 0) = Some (Obj 0) \<and>
     normalised (heap example_world) (QueryText ''doc1'') (Obj 0) \<and>
     length (results (bundles ! 0)) = 2 \<and>
     doc (results (bundles ! 0) ! 0) =
       \<lparr>doc_id = Some ''doc1'', embedding = Some [1], metadata = None,
        contents = Some ''doc1''\<rparr> \<and>
     doc (results (bundles ! 0) ! 1) =
       \<lparr>doc_id = Some ''doc2'', embedding = Some [2], metadata = Some [(''k'', LBoolean True)],
        contents = Some ''doc2''\<rparr> \<and>
     queryDoc (bundles ! 1) = Some (Obj 1) \<and>
     normalised (heap example_world) (QueryText ''doc2'') (Obj 1) \<and>
     length (results (bundles ! 1)) = 1 \<and>
     doc (results (bundles ! 1) ! 0) =
       \<lparr>doc_id = Some ''doc2'', embedding = Some [3], metadata = Some [(''k'', LBoolean False)],
        contents = Some ''doc2''\<rparr>"
proof -
  let ?qs = "[QueryText ''doc1'', QueryText ''doc2'']"
  have n: "length (resp_ids example_response) = length ?qs"
    by (simp add: example_length)
  have emb: "\<forall>i < length ?qs. \<forall>es. resp_embeddings example_response = Some es \<longrightarrow>
      i < length es \<longrightarrow> length (es ! i) = length (resp_ids example_response ! i)"
    by (simp add: example_response_def less_Suc_eq)
  have con: "\<forall>i < length ?qs. \<forall>dss. resp_documents example_response = Some dss \<longrightarrow>
      i < length dss \<longrightarrow> length (dss ! i) = length (resp_ids example_response ! i)"
    by (simp add: example_response_def less_Suc_eq)
  have met: "\<forall>i < length ?qs. \<forall>mss. resp_metadatas example_response = Some mss \<longrightarrow>
      i < length mss \<longrightarrow> length (mss ! i) = length (resp_ids example_response ! i)"
    by (simp add: example_response_def less_Suc_eq)
  from queryDocuments_batch_order
    [OF example_init example_batch example_norm example_comp example_server n emb con met]
  obtain bundles where
    q: "queryDocuments example_client example_collection (example_params (Multi ?qs))
          \<lparr>heap = [], generate_calls = []\<rparr> = (Inr (MultiResult bundles), example_world)"
    and len: "length bundles = length ?qs"
    and each: "\<forall>i < length ?qs.
        queryDoc (bundles ! i) = Some ([Obj 0, Obj 1] ! i) \<and>
        normalised (heap example_world) (?qs ! i) ([Obj 0, Obj 1] ! i) \<and>
        length (results (bundles ! i)) = length (resp_ids example_response ! i) \<and>
        (\<forall>j < length (resp_ids example_response ! i).
           doc (results (bundles ! i) ! j) =
             \<lparr>doc_id = Some (resp_ids example_response ! i ! j),
              embedding = (case resp_embeddings example_response of
                             None \<Rightarrow> None
                           | Some es \<Rightarrow> if i < length es then Some (es ! i ! j) else None),
              metadata = (case resp_metadatas example_response of
                            None \<Rightarrow> None
                          | Some mss \<Rightarrow> if i < length mss then mss ! i ! j else None),
              contents = (case resp_documents example_response of
                            None \<Rightarrow> None
                          | Some dss \<Rightarrow> if i < length dss then dss ! i ! j else None)\<rparr> \<and>
           distance (results (bundles ! i) ! j) =
             (case resp_distances example_response of
                None \<Rightarrow> 0
              | Some ds \<Rightarrow> if i < length ds \<and> j < length (ds ! i) then ds ! i ! j else 0))"
    by (elim exE conjE) (rule that; assumption)
  have i0: "0 < length ?qs" and i1: "1 < length ?qs" by simp_all
  note e0 = each [THEN spec, of 0, THEN mp, OF i0]
  note e1 = each [THEN spec, of 1, THEN mp, OF i1]
  from e0 [THEN conjunct1] have a0: "queryDoc (bundles ! 0) = Some (Obj 0)" by simp
  from e0 [THEN conjunct2, THEN conjunct1]
  have n0: "normalised (heap example_world) (QueryText ''doc1'') (Obj 0)" by simp
  from e0 [THEN conjunct2, THEN conjunct2, THEN conjunct1]
  have l0: "length (results (bundles ! 0)) = 2" by (simp add: example_response_def)
  note j0 = e0 [THEN conjunct2, THEN conjunct2, THEN conjunct2]
  from j0 [THEN spec, of 0] have d00: "doc (results (bundles ! 0) ! 0) =
       \<lparr>doc_id = Some ''doc1'', embedding = Some [1], metadata = None,
        contents = Some ''doc1''\<rparr>"
    by (simp add: example_response_def)
  from j0 [THEN spec, of 1] have d01: "doc (results (bundles ! 0) ! 1) =
       \<lparr>doc_id = Some ''doc2'', embedding = Some [2], metadata = Some [(''k'', LBoolean True)],
        contents = Some ''doc2''\<rparr>"
    by (simp add: example_response_def)
  from e1 [THEN conjunct1] have a1: "queryDoc (bundles ! 1) = Some (Obj 1)" by simp
  from e1 [THEN conjunct2, THEN conjunct1]
  have n1: "normalised (heap example_world) (QueryText ''doc2'') (Obj 1)" by simp
  from e1 [THEN conjunct2, THEN conjunct2, THEN conjunct1]
  have l1: "length (results (bundles ! 1)) = 1" by (simp add: example_response_def)
  note j1 = e1 [THEN conjunct2, THEN conjunct2, THEN conjunct2]
  from j1 [THEN spec, of 0] have d10: "doc (results (bundles ! 1) ! 0) =
       \<lparr>doc_id = Some ''doc2'', embedding = Some [3], metadata = Some [(''k'', LBoolean False)],
        contents = Some ''doc2''\<rparr>"
    by (simp add: example_response_def)
  from len have len2: "length bundles = 2" by simp
  show ?thesis
    by (rule exI [of _ bundles]) (intro conjI q len2 a0 n0 l0 d00 d01 a1 n1 l1 d10)
qed


text \<open>
  Claim C9: when the steps before the reassembly have returned and every entry of the
  response decodes, the call returns, whatever the distances of the response are; the
  ranked result at neighbour position i of the query at \<open>index\<close> has the distance
  the response gives at that query and position when there is one, and zero when the
  distances are absent, have no row for the query, or the row is shorter than the
  neighbour list.
\<close>

theorem queryDocuments_distances:
  assumes init: "initPromise client = Inr u"
    and norm: "map_docQueryToQueryDoc (toArray (query params)) (heap w) = (queryDocs, h1)"
    and comp: "computeEmbeddings queryDocs (embeddingFunction collection) (w\<lparr>heap := h1\<rparr>) =
        (Inr docsWithEmbeddings, w2)"
    and server: "getNearestNeighbors client (collection_id collection)
        \<lparr>query_embeddings = map (\<lambda>d. embedding (get_doc (heap w2) d)) docsWithEmbeddings,
         where_r = where_q params,
         n_results = (case nResults params of None \<Rightarrow> 10 | Some n \<Rightarrow> n),
         where_document = whereDocument params,
         include_r = include_q params\<rparr> = Inr response"
    and dec: "\<forall>index < length (resp_ids response).
        parallelArraysToDocs (response_entry response index (resp_ids response ! index)) =
          Inr (neighbours index)"
  shows "\<exists>bundles.
     queryDocuments client collection params w =
       (Inr (if isArray (query params) then MultiResult bundles
             else SingleResult (js_index bundles 0)), w2) \<and>
     length bundles = length (resp_ids response) \<and>
     (\<forall>index < length (resp_ids response).
        length (results (bundles ! index)) = length (resp_ids response ! index) \<and>
        (\<forall>i < length (resp_ids response ! index).
           distance (results (bundles ! index) ! i) =
             (case resp_distances response of
                None \<Rightarrow> 0
              | Some ds \<Rightarrow>
                  if index < length ds \<and> i < length (ds ! index) then ds ! index ! i else 0)))"
proof -
  define bundles where "bundles = map (\<lambda>index.
            \<lparr>queryDoc = js_index queryDocs index,
             results = map (\<lambda>i. \<lparr>doc = neighbours index ! i,
                                  distance = distance_at response index i\<rparr>)
                           [0..<length (neighbours index)]\<rparr>)
          [0..<length (resp_ids response)]"
  note q = queryDocuments_returns [OF init norm comp server dec bundles_def]
  have len: "length (neighbours index) = length (resp_ids response ! index)"
    if "index < length (resp_ids response)" for index
    using parallelArraysToDocs_Inr_length [of "response_entry response index (resp_ids response ! index)"
        "neighbours index"] dec that
    by (simp add: response_entry_def)
  have d: "distance_at response index i =
      (case resp_distances response of
         None \<Rightarrow> 0
       | Some ds \<Rightarrow> if index < length ds \<and> i < length (ds ! index) then ds ! index ! i else 0)"
    for index i
    by (simp add: distance_at_def js_index_def split: option.splits)
  have "distance (results (bundles ! index) ! i) =
      (case resp_distances response of
         None \<Rightarrow> 0
       | Some ds \<Rightarrow> if index < length ds \<and> i < length (ds ! index) then ds ! index ! i else 0)"
    if "index < length (resp_ids response)" "i < length (resp_ids response ! index)" for index i
    using that len [of index] by (simp add: bundles_def d split: option.splits)
  moreover have "length (results (bundles ! index)) = length (resp_ids response ! index)"
    if "index < length (resp_ids response)" for index
    using that len [of index] by (simp add: bundles_def)
  moreover have "length bundles = length (resp_ids response)"
    by (simp add: bundles_def)
  ultimately show ?thesis
    using q by (intro exI [of _ bundles]) blast
qed



theorem queryDocuments_distances_witness:
  "\<exists>bundles.
     queryDocuments example_client example_collection
       (example_params (Multi [QueryText ''doc1'', QueryText ''doc2'']))
       \<lparr>heap = [], generate_calls = []\<rparr> = (Inr (MultiResult bundles), example_world) \<and>
     length bundles = 2 \<and>
     length (results (bundles ! 0)) = 2 \<and>
     distance (results (bundles ! 0) ! 0) = 1 / 4 \<and>
     distance (results (bundles ! 0) ! 1) = 0 \<and>
     length (results (bundles ! 1)) = 1 \<and>
     distance (results (bundles ! 1) ! 0) = 0"
proof -
  let ?params = "example_params (Multi [QueryText ''doc1'', QueryText ''doc2''])"
  from queryDocuments_distances
    [OF example_init example_norm example_comp example_server example_dec]
  obtain bundles where
    q: "queryDocuments example_client example_collection ?params
          \<lparr>heap = [], generate_calls = []\<rparr> =
        (Inr (if isArray (query ?params) then MultiResult bundles
              else SingleResult (js_index bundles 0)), example_world)"
    and len: "length bundles = length (resp_ids example_response)"
    and each: "\<forall>index < length (resp_ids example_response).
        length (results (bundles ! index)) = length (resp_ids example_response ! index) \<and>
        (\<forall>i < length (resp_ids example_response ! index).
           distance (results (bundles ! index) ! i) =
             (case resp_distances example_response of
                None \<Rightarrow> 0
              | Some ds \<Rightarrow>
                  if index < length ds \<and> i < length (ds ! index) then ds ! index ! i else 0))"
    by blast
  from each [THEN spec, of 0] have
    "length (results (bundles ! 0)) = 2 \<and>
     (\<forall>i < 2. distance (results (bundles ! 0) ! i) = (if i < 1 then [1 / 4] ! i else 0))"
    by (simp add: example_response_def)
  then have b0: "length (results (bundles ! 0)) = 2"
    "distance (results (bundles ! 0) ! 0) = 1 / 4"
    "distance (results (bundles ! 0) ! 1) = 0"
    by auto
  from each [THEN spec, of 1] have
    "length (results (bundles ! 1)) = 1 \<and>
     (\<forall>i < 1. distance (results (bundles ! 1) ! i) = 0)"
    by (simp add: example_response_def)
  then have b1: "length (results (bundles ! 1)) = 1"
    "distance (results (bundles ! 1) ! 0) = 0"
    by auto
  from q have "queryDocuments example_client example_collection ?params
          \<lparr>heap = [], generate_calls = []\<rparr> = (Inr (MultiResult bundles), example_world)"
    by (simp add: example_params_def)
  with len b0 b1 show ?thesis
    by (intro exI [of _ bundles]) (simp add: example_length)
qed

end
